(* ===== verification/Prelude.thy ===== *)
theory Prelude
  imports Main "HOL-Library.Sublist"
begin

text \<open>
  Shared vocabulary of the development. Python 2 \<open>str\<close> values are byte strings; HOL's
  \<open>char\<close> has exactly 256 values, so a Python 2 string is modelled as \<open>string\<close>
  (\<open>char list\<close>) without loss. The combinator \<open>first_some\<close> is the shape of every
  backtracking loop of the model (the regular-expression engine tries candidate positions in
  order and keeps the first success); its congruence rule lets \<^theory_text>\<open>fun\<close> prove
  termination of recursion through it. \<open>occurs_at s i w\<close> says that the substring
  \<open>w\<close> starts at index \<open>i\<close> of \<open>s\<close>.
\<close>

named_theorems py_simps "evaluation rules of the modelled Python built-ins"

type_synonym pystr = string
type_synonym path = string

abbreviation nl :: char where "nl \<equiv> CHR 0x0A"
abbreviation bslash :: char where "bslash \<equiv> CHR 0x5C"

fun first_some :: "('a \<Rightarrow> 'b option) \<Rightarrow> 'a list \<Rightarrow> 'b option" where
  "first_some f [] = None"
| "first_some f (x # xs) = (case f x of None \<Rightarrow> first_some f xs | Some y \<Rightarrow> Some y)"

definition occurs_at :: "string \<Rightarrow> nat \<Rightarrow> string \<Rightarrow> bool" where
  "occurs_at s i w \<longleftrightarrow> take (length w) (drop i s) = w"

subsection \<open>The backtracking combinator\<close>

lemma first_some_cong [fundef_cong]:
  assumes "xs = ys" and "\<And>x. x \<in> set ys \<Longrightarrow> f x = g x"
  shows "first_some f xs = first_some g ys"
  using assms(2) unfolding assms(1)
proof (induction ys)
  case Nil
  then show ?case by simp
next
  case (Cons y ys)
  then have "first_some f ys = first_some g ys" and "f y = g y" by simp_all
  then show ?case by (simp split: option.split)
qed

lemma first_some_append [simp]:
  "first_some f (xs @ ys) = (case first_some f xs of None \<Rightarrow> first_some f ys | Some y \<Rightarrow> Some y)"
  by (induction xs) (auto split: option.split)

lemma first_some_None_iff:
  "first_some f xs = None \<longleftrightarrow> (\<forall>x \<in> set xs. f x = None)"
  by (induction xs) (auto split: option.split)

lemma first_some_SomeD:
  "first_some f xs = Some y \<Longrightarrow>
     \<exists>as x bs. xs = as @ x # bs \<and> (\<forall>a \<in> set as. f a = None) \<and> f x = Some y"
proof (induction xs)
  case Nil
  then show ?case by simp
next
  case (Cons z zs)
  show ?case
  proof (cases "f z")
    case None
    with Cons.prems have "first_some f zs = Some y" by simp
    then obtain as x bs where "zs = as @ x # bs" "\<forall>a \<in> set as. f a = None" "f x = Some y"
      using Cons.IH by blast
    with None show ?thesis by (metis append_Cons set_ConsD)
  next
    case (Some w)
    with Cons.prems show ?thesis by (intro exI [of _ "[]"]) auto
  qed
qed

lemma first_some_split:
  "(\<forall>a \<in> set as. f a = None) \<Longrightarrow> f x = Some y \<Longrightarrow> first_some f (as @ x # bs) = Some y"
  by (simp add: first_some_None_iff [symmetric])

lemma first_some_map_option:
  "first_some (\<lambda>x. map_option h (f x)) xs = map_option h (first_some f xs)"
  by (induction xs) (auto split: option.split)

lemma first_some_find:
  "first_some (\<lambda>x. if P x then Some (g x) else None) xs = map_option g (find P xs)"
  by (induction xs) auto

lemma first_some_rev_upt:
  "first_some f (rev [0..<Suc n]) = Some y \<longleftrightarrow>
     (\<exists>k \<le> n. f k = Some y \<and> (\<forall>k'. k < k' \<and> k' \<le> n \<longrightarrow> f k' = None))"
proof (induction n)
  case 0
  then show ?case by (auto split: option.split)
next
  case (Suc n)
  show ?case
  proof (cases "f (Suc n)")
    case None
    then have "first_some f (rev [0..<Suc (Suc n)]) = first_some f (rev [0..<Suc n])"
      by simp
    moreover have "(\<exists>k \<le> Suc n. f k = Some y \<and> (\<forall>k'. k < k' \<and> k' \<le> Suc n \<longrightarrow> f k' = None))
      \<longleftrightarrow> (\<exists>k \<le> n. f k = Some y \<and> (\<forall>k'. k < k' \<and> k' \<le> n \<longrightarrow> f k' = None))"
      using None by (auto simp: le_Suc_eq)
    ultimately show ?thesis using Suc.IH by simp
  next
    case (Some z)
    then have l: "first_some f (rev [0..<Suc (Suc n)]) = Some z" by simp
    have "(\<exists>k \<le> Suc n. f k = Some y \<and> (\<forall>k'. k < k' \<and> k' \<le> Suc n \<longrightarrow> f k' = None)) \<longleftrightarrow> z = y"
    proof
      assume "\<exists>k \<le> Suc n. f k = Some y \<and> (\<forall>k'. k < k' \<and> k' \<le> Suc n \<longrightarrow> f k' = None)"
      then obtain k where k: "k \<le> Suc n" "f k = Some y"
        and above: "\<forall>k'. k < k' \<and> k' \<le> Suc n \<longrightarrow> f k' = None" by blast
      have "k = Suc n"
        using k(1) above Some by (metis le_neq_implies_less option.distinct(1) order_refl)
      with k(2) Some show "z = y" by simp
    next
      assume "z = y"
      with Some show "\<exists>k \<le> Suc n. f k = Some y \<and> (\<forall>k'. k < k' \<and> k' \<le> Suc n \<longrightarrow> f k' = None)"
        by auto
    qed
    with l show ?thesis by auto
  qed
qed

lemma find_append:
  "find P (xs @ ys) = (case find P xs of None \<Rightarrow> find P ys | Some x \<Rightarrow> Some x)"
  by (induction xs) auto

lemma find_map_option: "find P (map f xs) = map_option f (find (P \<circ> f) xs)"
  by (induction xs) auto

lemma first_some_eqI:
  "(\<And>x. x \<in> set xs \<Longrightarrow> f x = g x) \<Longrightarrow> first_some f xs = first_some g xs"
  by (rule first_some_cong) auto

lemma find_upt_Some_iff:
  "find P [i..<n] = Some j \<longleftrightarrow> i \<le> j \<and> j < n \<and> P j \<and> (\<forall>j'. i \<le> j' \<and> j' < j \<longrightarrow> \<not> P j')"
proof
  assume "find P [i..<n] = Some j"
  then obtain t where t: "t < n - i" "P (i + t)" "j = i + t" and before: "\<forall>u<t. \<not> P (i + u)"
    by (auto simp: find_Some_iff)
  have "\<not> P j'" if "i \<le> j'" "j' < j" for j'
    using before [rule_format, of "j' - i"] that t(3) by simp
  with t show "i \<le> j \<and> j < n \<and> P j \<and> (\<forall>j'. i \<le> j' \<and> j' < j \<longrightarrow> \<not> P j')" by auto
next
  assume r: "i \<le> j \<and> j < n \<and> P j \<and> (\<forall>j'. i \<le> j' \<and> j' < j \<longrightarrow> \<not> P j')"
  then show "find P [i..<n] = Some j"
    unfolding find_Some_iff by (intro exI [of _ "j - i"]) auto
qed

lemma find_upt_None_iff:
  "find P [i..<n] = None \<longleftrightarrow> (\<forall>j. i \<le> j \<and> j < n \<longrightarrow> \<not> P j)"
  by (auto simp: find_None_iff)

lemma le_length_takeWhile_iff:
  "k \<le> length xs \<Longrightarrow> k \<le> length (takeWhile P xs) \<longleftrightarrow> (\<forall>i<k. P (xs ! i))"
proof
  assume "k \<le> length (takeWhile P xs)"
  then show "\<forall>i<k. P (xs ! i)"
    by (metis order_less_le_trans nth_mem set_takeWhileD takeWhile_nth)
next
  assume "k \<le> length xs" and "\<forall>i<k. P (xs ! i)"
  then show "k \<le> length (takeWhile P xs)" by (intro length_takeWhile_less_P_nth) auto
qed

lemma distinct_concat_map:
  "distinct xs \<Longrightarrow> (\<forall>x \<in> set xs. distinct (f x)) \<Longrightarrow>
     (\<forall>x \<in> set xs. \<forall>y \<in> set xs. x \<noteq> y \<longrightarrow> set (f x) \<inter> set (f y) = {}) \<Longrightarrow>
     distinct (concat (map f xs))"
  by (induction xs) auto

subsection \<open>Substrings\<close>

lemma occurs_at_Nil [simp]: "occurs_at s i []"
  by (simp add: occurs_at_def)

lemma occurs_at_bound: "occurs_at s i w \<Longrightarrow> w \<noteq> [] \<Longrightarrow> i + length w \<le> length s"
  unfolding occurs_at_def by (metis diff_is_0_eq' drop_eq_Nil length_drop length_take
      min.absorb_iff2 nat_le_linear take_eq_Nil le_diff_conv2 add.commute)

lemma occurs_at_append_left:
  "occurs_at (u @ v) (length u + i) w \<longleftrightarrow> occurs_at v i w"
  by (simp add: occurs_at_def)

lemma occurs_at_prefix:
  "i + length w \<le> length u \<Longrightarrow> occurs_at (u @ v) i w \<longleftrightarrow> occurs_at u i w"
  by (simp add: occurs_at_def)

lemma occurs_at_Cons:
  "occurs_at s i (c # w) \<longleftrightarrow> i < length s \<and> s ! i = c \<and> occurs_at s (Suc i) w"
proof (cases "i < length s")
  case True
  then have "drop i s = s ! i # drop (Suc i) s" by (rule Cons_nth_drop_Suc [symmetric])
  with True show ?thesis by (auto simp: occurs_at_def)
qed (simp add: occurs_at_def)

lemma occurs_at_Cons_Suc [simp]: "occurs_at (c # s) (Suc i) w \<longleftrightarrow> occurs_at s i w"
  by (simp add: occurs_at_def)


lemma two_split: "[a, b] = xs1 @ xs2 \<Longrightarrow>
  (xs1 = [] \<and> xs2 = [a, b]) \<or> (xs1 = [a] \<and> xs2 = [b]) \<or> (xs1 = [a, b] \<and> xs2 = [])"
  by (auto simp: Cons_eq_append_conv)

lemma sublist2_append:
  "sublist [a, b] (xs @ ys) \<longleftrightarrow>
     sublist [a, b] xs \<or> sublist [a, b] ys \<or> (xs \<noteq> [] \<and> ys \<noteq> [] \<and> last xs = a \<and> hd ys = b)"
proof
  assume "sublist [a, b] (xs @ ys)"
  then have "sublist [a, b] xs \<or> sublist [a, b] ys \<or>
      (\<exists>xs1 xs2. [a, b] = xs1 @ xs2 \<and> suffix xs1 xs \<and> prefix xs2 ys)"
    by (simp only: sublist_append)
  then consider "sublist [a, b] xs" | "sublist [a, b] ys"
    | xs1 xs2 where "[a, b] = xs1 @ xs2" "suffix xs1 xs" "prefix xs2 ys"
    by blast
  then show "sublist [a, b] xs \<or> sublist [a, b] ys \<or> (xs \<noteq> [] \<and> ys \<noteq> [] \<and> last xs = a \<and> hd ys = b)"
  proof cases
    case (3 xs1 xs2)
    consider "xs1 = []" "xs2 = [a, b]" | "xs1 = [a]" "xs2 = [b]" | "xs1 = [a, b]" "xs2 = []"
      using two_split [OF 3(1)] by blast
    then show ?thesis
    proof cases
      case 1
      then show ?thesis using 3(3) by (simp add: prefix_imp_sublist)
    next
      case 2
      then obtain u v where "xs = u @ [a]" "ys = b # v"
        using 3(2,3) by (auto simp: suffix_def prefix_def)
      then show ?thesis by simp
    next
      case 3
      then show ?thesis using \<open>suffix xs1 xs\<close> by (simp add: suffix_imp_sublist)
    qed
  qed auto
next
  assume "sublist [a, b] xs \<or> sublist [a, b] ys \<or> (xs \<noteq> [] \<and> ys \<noteq> [] \<and> last xs = a \<and> hd ys = b)"
  then show "sublist [a, b] (xs @ ys)"
  proof (elim disjE)
    assume "xs \<noteq> [] \<and> ys \<noteq> [] \<and> last xs = a \<and> hd ys = b"
    then have "xs @ ys = butlast xs @ [a, b] @ tl ys" by (metis append_butlast_last_id append_Cons
        append_Nil append_assoc list.collapse)
    then show ?thesis by (metis sublist_appendI)
  qed (simp_all add: sublist_append)
qed

lemma occurs_at_sublist: "occurs_at s j w \<Longrightarrow> j + length w \<le> n \<Longrightarrow> sublist w (take n s)"
proof -
  assume o: "occurs_at s j w" and n: "j + length w \<le> n"
  have "take n s = take (j + length w) s @ drop (j + length w) (take n s)"
    using n by (metis append_take_drop_id min.absorb1 take_take)
  moreover have "take (j + length w) s = take j s @ take (length w) (drop j s)"
    by (simp add: take_add)
  ultimately have "take n s = take j s @ w @ drop (j + length w) (take n s)"
    using o by (simp add: occurs_at_def)
  then show ?thesis by (metis sublist_appendI)
qed

lemma sublist2_set: "sublist [a, b] xs \<Longrightarrow> b \<in> set xs"
  by (auto simp: sublist_def)

lemma no_sublist2_append:
  "\<not> sublist [a, b] xs \<Longrightarrow> \<not> sublist [a, b] ys \<Longrightarrow>
     (xs \<noteq> [] \<Longrightarrow> ys \<noteq> [] \<Longrightarrow> last xs \<noteq> a \<or> hd ys \<noteq> b) \<Longrightarrow>
     \<not> sublist [a, b] (xs @ ys)"
  by (auto simp only: sublist2_append)

end
