(* ===== verification/PyStr.thy ===== *)
theory PyStr
  imports Prelude
begin

text \<open>
  The Python 2 built-ins the script calls on strings: \<open>file.readlines()\<close> (line 17),
  \<open>str.strip()\<close> (line 26) and \<open>os.path.basename\<close> (line 32). They are library code, not
  part of \<open>src/\<close>; each is modelled from its documented CPython 2.7 behaviour on byte
  strings. \<open>readlines\<close> is the loop of \<open>readline\<close> calls: a line ends after a newline
  byte or at the end of the file, and a final empty line is not returned (text mode on POSIX
  does no newline translation). \<open>str.strip()\<close> without argument removes the bytes for
  which C \<open>isspace\<close> holds in the C locale. \<open>basename\<close> is \<open>posixpath.basename\<close>:
  the part after the last slash.
\<close>

definition py_isspace :: "char \<Rightarrow> bool" where
  "py_isspace c \<longleftrightarrow> c \<in> set [CHR '' '', CHR 0x09, CHR 0x0A, CHR 0x0B, CHR 0x0C, CHR 0x0D]"

definition py_strip :: "pystr \<Rightarrow> pystr" where
  "py_strip s = rev (dropWhile py_isspace (rev (dropWhile py_isspace s)))"

fun readlines_from :: "pystr \<Rightarrow> pystr \<Rightarrow> pystr list" where
  "readlines_from cur [] = (if cur = [] then [] else [cur])"
| "readlines_from cur (c # cs) =
     (if c = nl then (cur @ [c]) # readlines_from [] cs else readlines_from (cur @ [c]) cs)"

definition readlines :: "pystr \<Rightarrow> pystr list" where
  "readlines s = readlines_from [] s"

definition basename :: "path \<Rightarrow> pystr" where
  "basename p = rev (takeWhile (\<lambda>c. c \<noteq> CHR ''/'') (rev p))"

subsection \<open>Lines\<close>

text \<open>
  \<open>readlines\<close> and \<open>concat\<close> are inverse: the lines join back to the file, and a
  list of lines in which every line but the last ends with its only newline splits back
  into itself.
\<close>

lemma concat_readlines_from: "concat (readlines_from cur s) = cur @ s"
  by (induction cur s rule: readlines_from.induct) auto

lemma concat_readlines: "concat (readlines s) = s"
  by (simp add: readlines_def concat_readlines_from)

lemma readlines_from_nonempty: "cur \<noteq> [] \<or> s \<noteq> [] \<Longrightarrow> readlines_from cur s \<noteq> []"
  by (induction cur s rule: readlines_from.induct) auto

lemma readlines_from_lines:
  "nl \<notin> set cur \<Longrightarrow> l \<in> set (readlines_from cur s) \<Longrightarrow> l \<noteq> [] \<and> nl \<notin> set (butlast l)"
  by (induction cur s rule: readlines_from.induct) (auto split: if_splits dest: in_set_butlastD)

lemma readlines_from_ends:
  "l \<in> set (butlast (readlines_from cur s)) \<Longrightarrow> last l = nl"
proof (induction cur s rule: readlines_from.induct)
  case (1 cur)
  then show ?case by (simp split: if_splits)
next
  case (2 cur c cs)
  show ?case
  proof (cases "c = nl")
    case True
    with "2.prems" have "l = cur @ [c] \<or> l \<in> set (butlast (readlines_from [] cs))"
      by (cases "readlines_from [] cs") auto
    with True "2.IH"(1) show ?thesis by auto
  next
    case False
    with "2.prems" "2.IH"(2) show ?thesis by simp
  qed
qed

lemma readlines_from_no_nl:
  "nl \<notin> set u \<Longrightarrow> readlines_from cur u = (if cur @ u = [] then [] else [cur @ u])"
  by (induction u arbitrary: cur) auto

lemma readlines_from_line:
  "nl \<notin> set u \<Longrightarrow> readlines_from cur (u @ nl # rest) = (cur @ u @ [nl]) # readlines_from [] rest"
  by (induction u arbitrary: cur) auto

definition well_formed_lines :: "pystr list \<Rightarrow> bool" where
  "well_formed_lines ls \<longleftrightarrow>
     (\<forall>l \<in> set ls. l \<noteq> [] \<and> nl \<notin> set (butlast l)) \<and> (\<forall>l \<in> set (butlast ls). last l = nl)"

lemma readlines_concat: "well_formed_lines ls \<Longrightarrow> readlines (concat ls) = ls"
proof (induction ls)
  case Nil
  then show ?case by (simp add: readlines_def)
next
  case (Cons l ls)
  from Cons.prems have l: "l \<noteq> []" "nl \<notin> set (butlast l)"
    by (auto simp: well_formed_lines_def)
  show ?case
  proof (cases ls)
    case Nil
    show ?thesis
    proof (cases "last l = nl")
      case True
      with l have "l = butlast l @ [nl]" by (metis append_butlast_last_id)
      with l(2) have "readlines_from [] l = [l]" by (metis readlines_from_line readlines_from.simps(1) append_Nil)
      with Nil show ?thesis by (simp add: readlines_def)
    next
      case False
      with l have "nl \<notin> set l" by (metis append_butlast_last_id rotate1.simps(2) set_ConsD set_rotate1)
      with l Nil show ?thesis by (simp add: readlines_def readlines_from_no_nl)
    qed
  next
    case (Cons l' ls')
    with Cons.prems have "last l = nl" and wf: "well_formed_lines ls"
      by (auto simp: well_formed_lines_def)
    with l have "l = butlast l @ [nl]" by (metis append_butlast_last_id)
    then have "readlines (concat (l # ls)) = l # readlines (concat ls)"
      using l(2) by (metis readlines_def readlines_from_line append.assoc append_Cons
          append_Nil concat.simps(2) self_append_conv2)
    with Cons.IH wf show ?thesis by simp
  qed
qed

lemma well_formed_readlines: "well_formed_lines (readlines s)"
  unfolding well_formed_lines_def readlines_def
  using readlines_from_lines [of "[]"] readlines_from_ends by auto

subsection \<open>Stripping\<close>

lemma py_strip_infix: "\<exists>u v. s = u @ py_strip s @ v"
proof -
  let ?t = "dropWhile py_isspace s"
  have "s = takeWhile py_isspace s @ ?t" by simp
  moreover have "?t = py_strip s @ rev (takeWhile py_isspace (rev ?t))"
    unfolding py_strip_def by (metis rev_append rev_rev_ident takeWhile_dropWhile_id)
  ultimately show ?thesis by metis
qed

lemma py_strip_sublist: "sublist (py_strip s) s"
  using py_strip_infix [of s] by (auto simp: sublist_def)

lemma set_py_strip: "set (py_strip s) \<subseteq> set s"
  using py_strip_infix [of s] by (metis Un_iff set_append subsetI)

subsection \<open>Base names\<close>

lemma basename_no_slash:
  assumes "CHR ''/'' \<notin> set p"
  shows "basename p = p"
proof -
  have "takeWhile (\<lambda>c. c \<noteq> CHR ''/'') (rev p) = rev p"
    by (rule takeWhile_eq_all_conv [THEN iffD2]) (use assms in auto)
  then show ?thesis unfolding basename_def by (metis rev_rev_ident)
qed

lemma basename_append_slash:
  assumes "CHR ''/'' \<notin> set n"
  shows "basename (d @ CHR ''/'' # n) = n"
proof -
  have "takeWhile (\<lambda>c. c \<noteq> CHR ''/'') (rev n @ CHR ''/'' # rev d) = rev n"
    using assms by (subst takeWhile_append2) auto
  then show ?thesis unfolding basename_def by (metis append.assoc append_Cons append_Nil rev_append rev_rev_ident rev.simps)
qed


lemma slash_basename: "CHR ''/'' \<notin> set (basename p)"
  unfolding basename_def by (auto dest: set_takeWhileD)


lemma py_strip_snoc_space: "py_isspace c \<Longrightarrow> py_strip (u @ [c]) = py_strip u"
proof (cases "\<forall>x \<in> set u. py_isspace x")
  case True
  moreover assume "py_isspace c"
  ultimately show ?thesis by (auto simp: py_strip_def dropWhile_append2 dest: set_dropWhileD)
next
  case False
  then obtain x where "x \<in> set u" "\<not> py_isspace x" by blast
  moreover assume "py_isspace c"
  ultimately show ?thesis by (simp add: py_strip_def dropWhile_append1)
qed

lemma nl_py_strip: "nl \<notin> set (butlast l) \<Longrightarrow> nl \<notin> set (py_strip l)"
proof (cases l rule: rev_cases)
  case Nil
  then show ?thesis by (simp add: py_strip_def)
next
  case (snoc u c)
  assume u: "nl \<notin> set (butlast l)"
  show ?thesis
  proof (cases "c = nl")
    case True
    then have "py_strip l = py_strip u" using snoc by (simp add: py_strip_snoc_space py_isspace_def)
    with u snoc set_py_strip [of u] show ?thesis by auto
  next
    case False
    with u snoc set_py_strip [of l] show ?thesis by auto
  qed
qed

lemma nl_py_strip_readlines: "l \<in> set (readlines s) \<Longrightarrow> nl \<notin> set (py_strip l)"
  using readlines_from_lines [of "[]" l s] by (simp add: readlines_def nl_py_strip)

end
