(* ===== verification/FileSystem.thy ===== *)
theory FileSystem
  imports PyStr "HOL-Library.AList"
begin

text \<open>
  The part of the operating system the script touches, modelled from POSIX and CPython 2.7
  (none of it is under \<open>src/\<close>). The working directory is an association list from
  relative paths to entries, in the order \<open>os.listdir\<close> reports them; an entry is a
  regular file (read and write permission for the running user, and its bytes) or a
  directory. \<open>open_read\<close> is \<open>open(p)\<close> followed by a read (line 16),
  \<open>open_rw\<close> is \<open>open(p, 'r+')\<close> (line 30), \<open>write_file\<close> is the
  \<open>seek(0); write(t); truncate()\<close> sequence of lines 34-36: the file holds exactly
  \<open>t\<close> afterwards and keeps its place in the listing. \<open>in_dir d p\<close> says that
  \<open>p\<close> is a direct entry of directory \<open>d\<close> (\<open>d = []\<close> is the working directory).
  The invariant \<open>wf_fs\<close> asks for distinct paths, none empty or ending in a slash.
\<close>

datatype io_error = ENOENT | EACCES | EISDIR

record file_node =
  readable :: bool
  writable :: bool
  content :: pystr

datatype entry = Regular file_node | Directory

type_synonym fs = "(path \<times> entry) list"

definition in_dir :: "path \<Rightarrow> path \<Rightarrow> bool" where
  "in_dir d p \<longleftrightarrow>
     (if d = [] then p \<noteq> [] \<and> CHR ''/'' \<notin> set p
      else take (Suc (length d)) p = d @ ''/'' \<and> length d + 1 < length p
           \<and> CHR ''/'' \<notin> set (drop (Suc (length d)) p))"

definition listdir :: "fs \<Rightarrow> path \<Rightarrow> pystr list option" where
  "listdir fs d =
     (if d = [] \<or> map_of fs d = Some Directory
      then Some (map basename (filter (in_dir d) (map fst fs)))
      else None)"

definition open_read :: "fs \<Rightarrow> path \<Rightarrow> io_error + pystr" where
  "open_read fs p =
     (case map_of fs p of
        None \<Rightarrow> Inl ENOENT
      | Some Directory \<Rightarrow> Inl EISDIR
      | Some (Regular f) \<Rightarrow> if readable f then Inr (content f) else Inl EACCES)"

definition open_rw :: "fs \<Rightarrow> path \<Rightarrow> io_error + file_node" where
  "open_rw fs p =
     (case map_of fs p of
        None \<Rightarrow> Inl ENOENT
      | Some Directory \<Rightarrow> Inl EISDIR
      | Some (Regular f) \<Rightarrow> if readable f \<and> writable f then Inr f else Inl EACCES)"

definition write_file :: "fs \<Rightarrow> path \<Rightarrow> file_node \<Rightarrow> pystr \<Rightarrow> fs" where
  "write_file fs p f t = AList.update p (Regular (f\<lparr>content := t\<rparr>)) fs"

definition wf_fs :: "fs \<Rightarrow> bool" where
  "wf_fs fs \<longleftrightarrow> distinct (map fst fs) \<and> (\<forall>p \<in> set (map fst fs). p \<noteq> [] \<and> last p \<noteq> CHR ''/'')"

subsection \<open>Writing a file\<close>

text \<open>
  A write changes the content of one path and nothing else: not the set or order of
  paths, not the other entries, not the directory listings; writes to two different
  paths commute.
\<close>

lemma map_of_write_file: "map_of (write_file fs p f t) = (map_of fs)(p \<mapsto> Regular (f\<lparr>content := t\<rparr>))"
  by (simp add: write_file_def update_conv')

lemma keys_write_file: "p \<in> set (map fst fs) \<Longrightarrow> map fst (write_file fs p f t) = map fst fs"
  by (simp add: write_file_def update_keys)

lemma open_rw_Inr:
  "open_rw fs p = Inr f \<longleftrightarrow> map_of fs p = Some (Regular f) \<and> readable f \<and> writable f"
  by (auto simp: open_rw_def split: option.splits entry.splits if_splits)

lemma map_of_key: "map_of fs p = Some e \<Longrightarrow> p \<in> set (map fst fs)"
  by (induction fs) (auto split: if_splits)

lemma open_rw_key:
  assumes "open_rw fs p = Inr f"
  shows "p \<in> set (map fst fs)"
proof -
  from assms have "map_of fs p = Some (Regular f)" by (simp add: open_rw_Inr)
  then show ?thesis by (rule map_of_key)
qed

lemma wf_write_file: "wf_fs fs \<Longrightarrow> p \<in> set (map fst fs) \<Longrightarrow> wf_fs (write_file fs p f t)"
  by (simp add: wf_fs_def keys_write_file)

lemma listdir_write_file:
  assumes p: "map_of fs p = Some (Regular g)"
  shows "listdir (write_file fs p f t) d = listdir fs d"
proof -
  from p have "p \<in> set (map fst fs)" by (rule map_of_key)
  then have keys: "map fst (write_file fs p f t) = map fst fs" by (rule keys_write_file)
  have dir: "(map_of (write_file fs p f t) d = Some Directory) = (map_of fs d = Some Directory)"
    using p by (simp add: map_of_write_file)
  show ?thesis unfolding listdir_def keys dir ..
qed

lemma update_commute:
  "k \<noteq> k' \<Longrightarrow> k \<in> set (map fst al) \<Longrightarrow> k' \<in> set (map fst al) \<Longrightarrow>
     AList.update k v (AList.update k' v' al) = AList.update k' v' (AList.update k v al)"
  by (induction al) auto

lemma write_file_commute:
  "p \<noteq> q \<Longrightarrow> p \<in> set (map fst fs) \<Longrightarrow> q \<in> set (map fst fs) \<Longrightarrow>
     write_file (write_file fs p f t) q g u = write_file (write_file fs q g u) p f t"
  by (simp add: write_file_def update_commute)

lemma open_rw_write_other:
  "p \<noteq> q \<Longrightarrow> open_rw (write_file fs p f t) q = open_rw fs q"
  by (simp add: open_rw_def map_of_write_file)

lemma open_read_write_other:
  "p \<noteq> q \<Longrightarrow> open_read (write_file fs p f t) q = open_read fs q"
  by (simp add: open_read_def map_of_write_file)

subsection \<open>Directory entries\<close>

lemma in_dir_split:
  "in_dir d q \<Longrightarrow> d \<noteq> [] \<Longrightarrow> q = d @ ''/'' @ drop (Suc (length d)) q"
proof -
  assume "in_dir d q" "d \<noteq> []"
  then have "take (Suc (length d)) q = d @ ''/''" by (simp add: in_dir_def)
  then show ?thesis by (metis append_take_drop_id append.assoc)
qed

lemma join_basename:
  "in_dir d q \<Longrightarrow> (if d = [] then basename q else d @ ''/'' @ basename q) = q"
proof (cases "d = []")
  case True
  moreover assume "in_dir d q"
  ultimately show ?thesis by (simp add: in_dir_def basename_no_slash)
next
  case False
  assume q: "in_dir d q"
  have split: "q = d @ ''/'' @ drop (Suc (length d)) q" by (rule in_dir_split [OF q False])
  have "CHR ''/'' \<notin> set (drop (Suc (length d)) q)" using q False by (simp add: in_dir_def)
  then have "basename q = drop (Suc (length d)) q" by (subst split) (simp add: basename_append_slash)
  with split False show ?thesis by simp
qed

lemma in_dir_unique: "in_dir d1 q \<Longrightarrow> in_dir d2 q \<Longrightarrow> d1 = d2"
proof -
  have slash: "CHR ''/'' \<in> set q" if "in_dir d q" "d \<noteq> []" for d
    using in_dir_split [OF that] by (metis Un_iff list.set_intros(1) set_append)
  have root: "CHR ''/'' \<notin> set q" if "in_dir [] q" using that by (simp add: in_dir_def)
  assume q1: "in_dir d1 q" and q2: "in_dir d2 q"
  show "d1 = d2"
  proof (cases "d1 = [] \<or> d2 = []")
    case True
    show ?thesis
    proof (rule ccontr)
      assume "d1 \<noteq> d2"
      with True have "(d1 = [] \<and> d2 \<noteq> []) \<or> (d2 = [] \<and> d1 \<noteq> [])" by auto
      then show False using q1 q2 slash root by blast
    qed
  next
    case False
    then have s1: "q = d1 @ ''/'' @ drop (Suc (length d1)) q"
      and s2: "q = d2 @ ''/'' @ drop (Suc (length d2)) q"
      using in_dir_split q1 q2 by blast+
    have n1: "basename q = drop (Suc (length d1)) q"
      using q1 False by (subst s1) (simp add: in_dir_def basename_append_slash)
    have n2: "basename q = drop (Suc (length d2)) q"
      using q2 False by (subst s2) (simp add: in_dir_def basename_append_slash)
    from s1 s2 n1 n2 have "d1 @ ''/'' @ basename q = d2 @ ''/'' @ basename q" by simp
    then show ?thesis by simp
  qed
qed

end
