(* ===== verification/Discovery.thy ===== *)
theory Discovery
  imports FileSystem
begin

text \<open>
  Lines 6-12 of \<open>src/code_license_replacer.py\<close> collect the candidate files with
  fourteen calls \<open>glob.glob(d + "*.h")\<close> and \<open>glob.glob(d + "*.cpp")\<close>, for the
  working directory and six named subdirectories, concatenated in that order. For a
  pattern \<open>dir/*.ext\<close> without magic in \<open>dir\<close>, Python 2.7's \<open>glob\<close> lists
  \<open>dir\<close> with \<open>os.listdir\<close> (an error, such as a missing directory, gives no
  names), drops names starting with a dot (the pattern does not start with one), keeps
  those \<open>fnmatch\<close> accepts (a name ending in \<open>.ext\<close>; \<open>*\<close> matches any bytes),
  in listing order, and joins \<open>dir\<close> back on. Directories whose names match are
  returned as well.
\<close>

definition fnmatch_ext :: "pystr \<Rightarrow> pystr \<Rightarrow> bool" where
  "fnmatch_ext ext name \<longleftrightarrow> suffix (''.'' @ ext) name"

definition glob_ext :: "fs \<Rightarrow> path \<Rightarrow> pystr \<Rightarrow> path list" where
  "glob_ext fs d ext =
     (case listdir fs d of
        None \<Rightarrow> []
      | Some names \<Rightarrow>
          map (\<lambda>n. if d = [] then n else d @ ''/'' @ n)
            (filter (fnmatch_ext ext) (filter (\<lambda>n. hd n \<noteq> CHR ''.'') names)))"

definition project_dirs :: "path list" where
  "project_dirs = [[], ''BlammoEngine'', ''ESPEngine'', ''GameModel'', ''GameView'',
                   ''GameControl'', ''GameSound'']"

definition discover :: "fs \<Rightarrow> path list" where
  "discover fs = concat (map (\<lambda>d. glob_ext fs d ''h'' @ glob_ext fs d ''cpp'') project_dirs)"

subsection \<open>What discovery returns\<close>

text \<open>
  Each \<open>glob\<close> call is a filter over the directory listing; the candidates are
  exactly the listed, non-hidden \<open>.h\<close> and \<open>.cpp\<close> entries of the seven
  directories (directories among them), each once, and a write to an existing regular
  file does not change them.
\<close>

lemma glob_ext_filter:
  "glob_ext fs d ext =
     (if d = [] \<or> map_of fs d = Some Directory
      then filter (\<lambda>q. in_dir d q \<and> hd (basename q) \<noteq> CHR ''.'' \<and> fnmatch_ext ext (basename q))
             (map fst fs)
      else [])"
proof -
  let ?j = "\<lambda>n. if d = [] then n else d @ ''/'' @ n"
  have "map ?j (filter (fnmatch_ext ext) (filter (\<lambda>n. hd n \<noteq> CHR ''.'') (map basename (filter (in_dir d) ks))))
      = filter (\<lambda>q. in_dir d q \<and> hd (basename q) \<noteq> CHR ''.'' \<and> fnmatch_ext ext (basename q)) ks" for ks
    by (induction ks) (auto simp: join_basename)
  then show ?thesis by (simp add: glob_ext_def listdir_def)
qed

lemma fnmatch_h_cpp: "\<not> (fnmatch_ext ''h'' n \<and> fnmatch_ext ''cpp'' n)"
  by (auto simp: fnmatch_ext_def suffix_def)

lemma set_glob_ext:
  "q \<in> set (glob_ext fs d ext) \<longleftrightarrow>
     (d = [] \<or> map_of fs d = Some Directory) \<and> q \<in> set (map fst fs) \<and> in_dir d q \<and>
     hd (basename q) \<noteq> CHR ''.'' \<and> fnmatch_ext ext (basename q)"
  by (auto simp: glob_ext_filter)

lemma distinct_glob_ext: "distinct (map fst fs) \<Longrightarrow> distinct (glob_ext fs d ext)"
  by (simp add: glob_ext_filter)

lemma distinct_discover: "wf_fs fs \<Longrightarrow> distinct (discover fs)"
  unfolding discover_def
proof (rule distinct_concat_map)
  assume wf: "wf_fs fs"
  show "distinct project_dirs" by (simp add: project_dirs_def)
  show "\<forall>d \<in> set project_dirs. distinct (glob_ext fs d ''h'' @ glob_ext fs d ''cpp'')"
    using wf fnmatch_h_cpp by (auto simp: wf_fs_def distinct_glob_ext set_glob_ext)
  show "\<forall>d1 \<in> set project_dirs. \<forall>d2 \<in> set project_dirs. d1 \<noteq> d2 \<longrightarrow>
      set (glob_ext fs d1 ''h'' @ glob_ext fs d1 ''cpp'') \<inter> set (glob_ext fs d2 ''h'' @ glob_ext fs d2 ''cpp'') = {}"
    using in_dir_unique by (auto simp: set_glob_ext)
qed

text \<open>C11: a path is a candidate exactly when it is an entry of the file system that lies
  directly in the working directory or in one of the six named subdirectories (which must
  exist as directories), its base name does not start with a dot, and it ends in
  \<open>.h\<close> or \<open>.cpp\<close>; directories with such names are candidates too.\<close>
theorem discover_iff:
  "q \<in> set (discover fs) \<longleftrightarrow>
     q \<in> set (map fst fs) \<and> (\<exists>d \<in> set project_dirs. in_dir d q \<and> (d = [] \<or> map_of fs d = Some Directory)) \<and>
     hd (basename q) \<noteq> CHR ''.'' \<and> (fnmatch_ext ''h'' (basename q) \<or> fnmatch_ext ''cpp'' (basename q))"
  by (auto simp: discover_def set_glob_ext)

lemma discover_write_file:
  "map_of fs p = Some (Regular g) \<Longrightarrow> discover (write_file fs p f t) = discover fs"
  by (simp add: discover_def glob_ext_def listdir_write_file)


lemma discover_same_layout:
  assumes "map fst fs' = map fst fs"
    and "\<And>d. map_of fs' d = Some Directory \<longleftrightarrow> map_of fs d = Some Directory"
  shows "discover fs' = discover fs"
proof -
  have "listdir fs' d = listdir fs d" for d unfolding listdir_def assms(1) assms(2) ..
  then show ?thesis by (simp add: discover_def glob_ext_def)
qed

lemma discover_ext:
  "q \<in> set (discover fs) \<Longrightarrow> fnmatch_ext ''h'' (basename q) \<or> fnmatch_ext ''cpp'' (basename q)"
  by (auto simp: discover_def set_glob_ext)

end
