(* ===== verification/Regex.thy ===== *)
theory Regex
  imports Prelude
begin

text \<open>
  The regular-expression engine of Python 2's \<open>re\<close> module (\<open>sre\<close>), restricted to the
  constructs of the pattern on line 32 of \<open>src/code_license_replacer.py\<close>:
  \<^verbatim>\<open>re.sub(r"^\W*/\*\*(.+?)\*/", ..., fileText, count=1, flags=re.DOTALL)\<close>.
  \<open>sre\<close> compiles a pattern to a sequence of opcodes and runs them with backtracking; the
  datatype \<open>rx\<close> has one constructor per opcode used here: \<open>AT_BEGINNING\<close>
  (\<open>Bol\<close>), \<open>LITERAL\<close> (\<open>Lit\<close>), \<open>MARK\<close> (\<open>Mark\<close>; group \<open>g\<close> sets marks
  \<open>2g-2\<close> and \<open>2g-1\<close>), \<open>REPEAT_ONE\<close> with no upper bound (\<open>Greedy_star\<close>, tries
  the longest run first and gives back one character at a time) and
  \<open>MIN_REPEAT_ONE\<close> with lower bound 1 (\<open>Lazy_plus\<close>, tries the shortest run first and
  takes one more character at a time). \<open>mt\<close> is the matcher: it returns the end position
  and the marks of the first success in backtracking order, or \<open>None\<close>. \<open>rx_search\<close>
  is \<open>sre\<close>'s search: the first start position, from 0 upwards, at which the pattern
  matches.

  Character classes are those of a byte-string pattern without the LOCALE or UNICODE
  flag: a word character is an ASCII letter, digit or underscore (\<open>SRE_IS_WORD\<close>);
  \<open>\W\<close> is every other byte; \<open>.\<close> under DOTALL is every byte.

  \<open>leading_comment\<close> is the reference definition of what the pattern of line 32 finds,
  stated over positions of the text instead of opcodes, and \<open>rx_search_leading\<close> proves
  the engine computes it.
\<close>

definition is_word :: "char \<Rightarrow> bool" where
  "is_word c \<longleftrightarrow>
     (let n = (of_char c :: nat) in
      (97 \<le> n \<and> n \<le> 122) \<or> (65 \<le> n \<and> n \<le> 90) \<or> (48 \<le> n \<and> n \<le> 57) \<or> n = 95)"

datatype cclass = Any_char | Not_word

fun in_class :: "cclass \<Rightarrow> char \<Rightarrow> bool" where
  "in_class Any_char c = True"
| "in_class Not_word c = (\<not> is_word c)"

datatype rx = Bol | Lit char | Mark nat | Greedy_star cclass | Lazy_plus cclass

type_synonym marks = "nat \<Rightarrow> nat option"

definition run_len :: "cclass \<Rightarrow> string \<Rightarrow> nat \<Rightarrow> nat" where
  "run_len k s i = length (takeWhile (in_class k) (drop i s))"

fun mt :: "rx list \<Rightarrow> string \<Rightarrow> nat \<Rightarrow> marks \<Rightarrow> (nat \<times> marks) option" where
  "mt [] s i m = Some (i, m)"
| "mt (Bol # p) s i m = (if i = 0 then mt p s i m else None)"
| "mt (Lit c # p) s i m = (if i < length s \<and> s ! i = c then mt p s (Suc i) m else None)"
| "mt (Mark k # p) s i m = mt p s i (m(k \<mapsto> i))"
| "mt (Greedy_star k # p) s i m =
     first_some (\<lambda>j. mt p s j m) (rev [i..<i + run_len k s i + 1])"
| "mt (Lazy_plus k # p) s i m =
     first_some (\<lambda>j. mt p s j m) [Suc i..<i + run_len k s i + 1]"

definition rx_search :: "rx list \<Rightarrow> string \<Rightarrow> (nat \<times> nat \<times> marks) option" where
  "rx_search p s =
     first_some (\<lambda>i. map_option (\<lambda>(e, m). (i, e, m)) (mt p s i Map.empty)) [0..<Suc (length s)]"

definition leading_block_rx :: "rx list" where
  "leading_block_rx =
     [Bol, Greedy_star Not_word, Lit CHR ''/'', Lit CHR ''*'', Lit CHR ''*'',
      Mark 0, Lazy_plus Any_char, Mark 1, Lit CHR ''*'', Lit CHR ''/'']"

subsection \<open>Reference definition of the leading comment block\<close>

definition nonword_len :: "string \<Rightarrow> nat" where
  "nonword_len s = run_len Not_word s 0"

definition close_from :: "string \<Rightarrow> nat \<Rightarrow> nat option" where
  "close_from s i = find (\<lambda>j. occurs_at s j ''*/'') [i..<length s]"

definition block_at :: "string \<Rightarrow> nat \<Rightarrow> (nat \<times> nat) option" where
  "block_at s k =
     (if occurs_at s k ''/**'' then map_option (Pair k) (close_from s (k + 4)) else None)"

definition leading_comment :: "string \<Rightarrow> (nat \<times> nat) option" where
  "leading_comment s = first_some (block_at s) (rev [0..<Suc (nonword_len s)])"

subsection \<open>The engine computes the reference definition\<close>

text \<open>
  The matcher is unfolded one opcode group at a time: the closing \<open>*/\<close> literals, the
  lazy \<open>.+?\<close> with its marks (it stops at the first \<open>*/\<close> at least one character
  after the opener), the opening \<open>/**\<close>, the greedy \<open>\W*\<close> (it tries the
  openers inside the leading non-word run from the last one backwards), and the anchor
  (only start position 0 can match).
\<close>

lemma run_len_Any_char: "run_len Any_char s i = length s - i"
proof -
  have tw: "takeWhile (in_class Any_char) xs = xs" for xs by (induction xs) auto
  show ?thesis by (simp add: run_len_def tw)
qed

lemma nonword_len_le: "nonword_len s \<le> length s"
  by (simp add: nonword_len_def run_len_def length_takeWhile_le)

lemma mt_mark_close:
  "mt [Mark k, Lit CHR ''*'', Lit CHR ''/''] s j m =
     (if occurs_at s j ''*/'' then Some (j + 2, m(k \<mapsto> j)) else None)"
  by (simp add: occurs_at_Cons)

lemma close_from_Suc_length:
  "find (\<lambda>j. occurs_at s j ''*/'') [i..<Suc (length s)] = close_from s i"
proof -
  have "\<not> occurs_at s (length s) ''*/''" by (simp add: occurs_at_def)
  then show ?thesis by (simp add: close_from_def find_append split: option.split)
qed

lemma mt_lazy_close:
  "mt [Lazy_plus Any_char, Mark 1, Lit CHR ''*'', Lit CHR ''/''] s i m =
     map_option (\<lambda>j. (j + 2, m(1 \<mapsto> j))) (close_from s (Suc i))"
proof (cases "i \<le> length s")
  case True
  then have "[Suc i..<i + run_len Any_char s i + 1] = [Suc i..<Suc (length s)]"
    by (simp add: run_len_Any_char)
  then show ?thesis
    by (simp only: mt.simps(6) mt_mark_close first_some_find close_from_Suc_length)
next
  case False
  then show ?thesis by (simp add: run_len_Any_char close_from_def)
qed

lemma mt_Lits:
  "mt (map Lit w @ q) s k m = (if occurs_at s k w then mt q s (k + length w) m else None)"
  by (induction w arbitrary: k) (auto simp: occurs_at_Cons)

lemma mt_open:
  "mt [Lit CHR ''/'', Lit CHR ''*'', Lit CHR ''*'', Mark 0, Lazy_plus Any_char, Mark 1,
       Lit CHR ''*'', Lit CHR ''/''] s k m =
     map_option (\<lambda>(k', j). (j + 2, m(0 \<mapsto> k' + 3, 1 \<mapsto> j))) (block_at s k)"
proof -
  have "mt [Lit CHR ''/'', Lit CHR ''*'', Lit CHR ''*'', Mark 0, Lazy_plus Any_char, Mark 1,
       Lit CHR ''*'', Lit CHR ''/''] s k m =
    mt (map Lit ''/**'' @ [Mark 0, Lazy_plus Any_char, Mark 1, Lit CHR ''*'', Lit CHR ''/'']) s k m"
    by simp
  also have "\<dots> = (if occurs_at s k ''/**'' then
      mt [Lazy_plus Any_char, Mark 1, Lit CHR ''*'', Lit CHR ''/''] s (k + 3) (m(0 \<mapsto> k + 3))
      else None)"
    by (simp only: mt_Lits mt.simps(4)) (simp add: numeral_3_eq_3 del: mt.simps(6))
  finally show ?thesis
    by (simp only: mt_lazy_close) (simp add: block_at_def option.map_comp comp_def add.commute)
qed

lemma rx_search_Bol:
  "rx_search (Bol # p) s = map_option (\<lambda>(e, m). (0, e, m)) (mt p s 0 Map.empty)"
proof -
  let ?F = "\<lambda>i. map_option (\<lambda>(e, m). (i, e, m)) (mt (Bol # p) s i Map.empty)"
  have split: "[0..<Suc (length s)] = 0 # [1..<Suc (length s)]" by (subst upt_rec) simp
  have rest: "first_some ?F [1..<Suc (length s)] = None"
    by (simp add: first_some_None_iff del: upt_Suc)
  have "rx_search (Bol # p) s = first_some ?F (0 # [1..<Suc (length s)])"
    unfolding rx_search_def split ..
  also have "\<dots> = ?F 0"
    by (simp only: first_some.simps(2) rest) (simp split: option.split)
  finally show ?thesis by simp
qed

theorem rx_search_leading:
  "rx_search leading_block_rx s =
     map_option (\<lambda>(k, j). (0, j + 2, [0 \<mapsto> k + 3, 1 \<mapsto> j])) (leading_comment s)"
proof -
  have "mt (tl leading_block_rx) s 0 Map.empty =
      first_some (\<lambda>k. map_option (\<lambda>(k', j). (j + 2, [0 \<mapsto> k' + 3, 1 \<mapsto> j])) (block_at s k))
        (rev [0..<Suc (nonword_len s)])"
    by (simp only: leading_block_rx_def list.sel mt.simps(5) mt_open nonword_len_def add_0 Suc_eq_plus1)
  then show ?thesis
    by (simp add: leading_block_rx_def rx_search_Bol first_some_map_option leading_comment_def
        option.map_comp comp_def split_def)
qed

subsection \<open>What the pattern finds\<close>

text \<open>
  The declarative reading of \<open>leading_comment\<close>: the opener is the \<emph>\<open>last\<close>
  \<open>/**\<close> inside the leading run of non-word bytes that has a closer after it (greedy
  \<open>\W*\<close>), and the closer is the \<emph>\<open>first\<close> \<open>*/\<close> starting at least one
  byte after the opener (lazy \<open>.+?\<close> needs one byte of content).
\<close>

lemma close_from_Some_iff:
  "close_from s i = Some j \<longleftrightarrow>
     i \<le> j \<and> occurs_at s j ''*/'' \<and> (\<forall>j'. i \<le> j' \<and> j' < j \<longrightarrow> \<not> occurs_at s j' ''*/'')"
  unfolding close_from_def find_upt_Some_iff using occurs_at_bound [of s _ "''*/''"] by fastforce

lemma close_from_None_iff:
  "close_from s i = None \<longleftrightarrow> (\<forall>j \<ge> i. \<not> occurs_at s j ''*/'')"
  unfolding close_from_def find_upt_None_iff using occurs_at_bound [of s _ "''*/''"] by fastforce

lemma le_nonword_len_iff:
  "k \<le> length s \<Longrightarrow> k \<le> nonword_len s \<longleftrightarrow> (\<forall>i<k. \<not> is_word (s ! i))"
proof -
  have "in_class Not_word = (\<lambda>c. \<not> is_word c)" by (rule ext) simp
  moreover assume "k \<le> length s"
  ultimately show ?thesis by (simp add: nonword_len_def run_len_def le_length_takeWhile_iff)
qed

lemma block_at_SomeD: "block_at s k' = Some (k, j) \<Longrightarrow> k' = k"
  by (auto simp: block_at_def split: if_splits)

lemma block_at_None_iff:
  "block_at s k = None \<longleftrightarrow> \<not> occurs_at s k ''/**'' \<or> close_from s (k + 4) = None"
  by (simp add: block_at_def)

lemma leading_comment_Some_iff:
  "leading_comment s = Some (k, j) \<longleftrightarrow>
     k \<le> nonword_len s \<and> occurs_at s k ''/**'' \<and> close_from s (k + 4) = Some j \<and>
     (\<forall>k'. k < k' \<and> k' \<le> nonword_len s \<and> occurs_at s k' ''/**'' \<longrightarrow> close_from s (k' + 4) = None)"
  unfolding leading_comment_def first_some_rev_upt
  by (auto simp: block_at_None_iff dest: block_at_SomeD) (auto simp: block_at_def split: if_splits)

lemma leading_comment_iff:
  "leading_comment s = Some (k, j) \<longleftrightarrow>
     (\<forall>i<k. \<not> is_word (s ! i)) \<and> occurs_at s k ''/**'' \<and>
     k + 4 \<le> j \<and> occurs_at s j ''*/'' \<and> (\<forall>j'. k + 4 \<le> j' \<and> j' < j \<longrightarrow> \<not> occurs_at s j' ''*/'') \<and>
     (\<forall>k' j'. k < k' \<and> (\<forall>i<k'. \<not> is_word (s ! i)) \<and> occurs_at s k' ''/**'' \<and> k' + 4 \<le> j'
        \<longrightarrow> \<not> occurs_at s j' ''*/'')"
proof -
  have bound: "k' \<le> length s" if "occurs_at s k' ''/**''" for k'
    using occurs_at_bound [OF that] by simp
  show ?thesis
    unfolding leading_comment_Some_iff close_from_Some_iff close_from_None_iff
    using bound le_nonword_len_iff by (smt (verit))
qed


text \<open>C1: the search that \<open>re.sub\<close> performs with the pattern of line 32 succeeds
  exactly when the text starts with a run of non-word bytes containing an opener
  \<open>/**\<close> that has a closer \<open>*/\<close> at least one byte after it. The match then starts
  at position 0 and ends after the first such closer, group 1 runs from just after the opener
  to just before the closer, and the opener is the last one in the leading non-word run that
  has a closer.\<close>
theorem line32_match_spec:
  "rx_search leading_block_rx s = Some (st, en, m) \<longleftrightarrow>
     st = 0 \<and> (\<exists>k j. en = j + 2 \<and> m = [0 \<mapsto> k + 3, 1 \<mapsto> j] \<and>
       (\<forall>i<k. \<not> is_word (s ! i)) \<and> occurs_at s k ''/**'' \<and>
       k + 4 \<le> j \<and> occurs_at s j ''*/'' \<and> (\<forall>j'. k + 4 \<le> j' \<and> j' < j \<longrightarrow> \<not> occurs_at s j' ''*/'') \<and>
       (\<forall>k' j'. k < k' \<and> (\<forall>i<k'. \<not> is_word (s ! i)) \<and> occurs_at s k' ''/**'' \<and> k' + 4 \<le> j'
          \<longrightarrow> \<not> occurs_at s j' ''*/''))"
proof -
  have "rx_search leading_block_rx s = Some (st, en, m) \<longleftrightarrow>
      st = 0 \<and> (\<exists>k j. en = j + 2 \<and> m = [0 \<mapsto> k + 3, 1 \<mapsto> j] \<and> leading_comment s = Some (k, j))"
    by (auto simp: rx_search_leading)
  then show ?thesis by (simp only: leading_comment_iff)
qed

theorem line32_match_spec_witness:
  "rx_search leading_block_rx ''/** a */ int x;'' = Some (0, 8, [0 \<mapsto> 3, 1 \<mapsto> 6])"
proof -
  have "leading_comment ''/** a */ int x;'' = Some (0, 6)"
    by (simp add: leading_comment_def block_at_def close_from_def nonword_len_def run_len_def
        is_word_def occurs_at_def)
  note decl = this [unfolded leading_comment_iff]
  show ?thesis
    by (unfold line32_match_spec, rule conjI [OF refl], rule exI [of _ 0], rule exI [of _ 6])
       (use decl in simp)
qed


subsection \<open>Consequences of greedy and lazy matching\<close>

lemma upt_add_shift: "[a + i..<a + n] = map (\<lambda>j. a + j) [i..<n]"
  by (induction n) auto

lemma close_from_append:
  "close_from (u @ v) (length u + i) = map_option (\<lambda>j. length u + j) (close_from v i)"
proof -
  have "[length u + i..<length (u @ v)] = map (\<lambda>j. length u + j) [i..<length v]"
    using upt_add_shift [of "length u" i "length v"] by simp
  then show ?thesis by (simp add: close_from_def find_map_option comp_def occurs_at_append_left)
qed

lemma close_from_skip:
  "\<not> occurs_at s i ''*/'' \<Longrightarrow> i < length s \<Longrightarrow> close_from s i = close_from s (Suc i)"
  by (simp add: close_from_def upt_conv_Cons)

lemma is_word_not_delim: "is_word c \<Longrightarrow> c \<noteq> CHR ''*'' \<and> c \<noteq> CHR ''/''"
  by (auto simp: is_word_def)

lemma delims_not_word: "\<not> is_word CHR ''*''" "\<not> is_word CHR ''/''"
  by (simp_all add: is_word_def)

text \<open>C5: an empty documentation comment \<open>/**/\<close> at the start of a file, followed by
  code, is not a block for the pattern: \<open>.+?\<close> needs at least one byte, so the match
  runs on to the next \<open>*/\<close> anywhere later in the file (and the substitution deletes
  everything up to it), or fails when there is none.\<close>
theorem empty_block_comment:
  assumes "is_word c"
  shows "leading_comment (''/**/'' @ c # r) = map_option (\<lambda>j. (0, j + 5)) (close_from r 0)"
proof -
  let ?s = "''/**/'' @ c # r"
  have c: "c \<noteq> CHR ''*''" "c \<noteq> CHR ''/''" using is_word_not_delim [OF assms] by simp_all
  have nw: "nonword_len ?s = 4"
    using assms delims_not_word by (simp add: nonword_len_def run_len_def)
  have "close_from ?s 4 = close_from ?s 5"
    using c by (simp add: close_from_skip occurs_at_def)
  also have "\<dots> = close_from ((''/**/'' @ [c]) @ r) (length (''/**/'' @ [c]) + 0)"
    by (simp add: eval_nat_numeral)
  also have "\<dots> = map_option (\<lambda>j. j + 5) (close_from r 0)"
    by (simp only: close_from_append) (simp add: add.commute eval_nat_numeral)
  finally have close: "close_from ?s (0 + 4) = map_option (\<lambda>j. j + 5) (close_from r 0)" by simp
  have "leading_comment ?s = block_at ?s 0"
    unfolding leading_comment_def nw using c by (simp add: block_at_def occurs_at_def eval_nat_numeral upt_Suc split: option.split)
  with close show ?thesis by (simp add: block_at_def occurs_at_def option.map_comp comp_def)
qed

theorem empty_block_comment_witness:
  "leading_comment ''/**/int x; /* c */'' = Some (0, 16)"
proof -
  have w: "is_word CHR ''i''" by (simp add: is_word_def)
  have "close_from ''nt x; /* c */'' 0 = Some 11" by (simp add: close_from_def occurs_at_def)
  with empty_block_comment [OF w, of "''nt x; /* c */''"] show ?thesis by simp
qed

text \<open>An example of the opener the pattern takes: it is the \<emph>\<open>last\<close> \<open>/**\<close> of the leading
  non-word run that has a closer, not the first: in \<open>/***/**/x */\<close> the block that opens
  at 0 closes at 6, but greedy \<open>\W*\<close> gives back bytes from the right, so the match uses
  the opener at 4 and its closer at 10 and swallows \<open>x\<close>.\<close>
lemma greedy_last_opener:
  "block_at ''/***/**/x */'' 0 = Some (0, 6) \<and> leading_comment ''/***/**/x */'' = Some (4, 10)"
  by (simp add: leading_comment_def block_at_def close_from_def nonword_len_def run_len_def
      is_word_def occurs_at_def)

end
