(* ===== verification/Template.thy ===== *)
theory Template
  imports PyStr
begin

text \<open>
  The replacement string of \<open>re.sub\<close> is a template, not a literal: Python 2.7's
  \<open>sre_parse.parse_template\<close> reads it as a sequence of tokens (a byte, or a backslash
  and the byte after it) and turns it into literal text and group references;
  \<open>sre_parse.expand_template\<close> substitutes the groups of the match. The header built
  on line 32 of \<open>src/code_license_replacer.py\<close> goes through this, so a backslash in the
  file name or the license text is interpreted. \<open>parse_template\<close> runs before the
  search (CPython's \<open>pattern_subx\<close> hands any template with a backslash to
  \<open>re._subx\<close> first), so its errors are raised whether the file has a comment block or
  not; \<open>expand\<close> runs only on a match. A template without backslash is used as it is.

  Deviations: the tokenizer is run to the end before parsing, so where two errors are
  possible the one reported may differ (both are uncaught and abort the run alike); a
  non-numeric group name is \<open>Bad_group_name\<close> (Python raises \<open>re.error\<close> or, for a
  valid identifier the pattern does not define, \<open>IndexError\<close>; both are uncaught);
  \<open>int()\<close> on a group name accepts surrounding whitespace, a sign, whitespace after
  the sign (\<open>PyOS_strtoul\<close> skips it) and decimal digits.
\<close>

datatype re_error = Bogus_escape | Missing_group_name | Unterminated_group_name
  | Bad_group_name | Negative_group_number | Invalid_group_reference | Unmatched_group

datatype ttoken = TChr char | TEsc char

datatype titem = TLit pystr | TGroup nat

fun tokenize :: "pystr \<Rightarrow> re_error + ttoken list" where
  "tokenize [] = Inr []"
| "tokenize (c # cs) =
     (if c = bslash then
        (case cs of
          [] \<Rightarrow> Inl Bogus_escape
        | d # ds \<Rightarrow> (case tokenize ds of Inl e \<Rightarrow> Inl e | Inr ts \<Rightarrow> Inr (TEsc d # ts)))
      else (case tokenize cs of Inl e \<Rightarrow> Inl e | Inr ts \<Rightarrow> Inr (TChr c # ts)))"

fun tok_str :: "ttoken \<Rightarrow> pystr" where
  "tok_str (TChr c) = [c]"
| "tok_str (TEsc c) = [bslash, c]"

definition is_digit :: "char \<Rightarrow> bool" where
  "is_digit c \<longleftrightarrow> 48 \<le> (of_char c :: nat) \<and> (of_char c :: nat) \<le> 57"

definition is_octal :: "char \<Rightarrow> bool" where
  "is_octal c \<longleftrightarrow> 48 \<le> (of_char c :: nat) \<and> (of_char c :: nat) \<le> 55"

definition digit_val :: "char \<Rightarrow> nat" where
  "digit_val c = of_char c - 48"

fun radix_val :: "nat \<Rightarrow> pystr \<Rightarrow> nat" where
  "radix_val b [] = 0"
| "radix_val b (c # cs) = digit_val c * b ^ length cs + radix_val b cs"

definition py_int :: "pystr \<Rightarrow> int option" where
  "py_int s =
     (let t = py_strip s;
          (neg, r) = (case t of c # r \<Rightarrow> if c = CHR ''-'' then (True, r)
                                         else if c = CHR ''+'' then (False, r) else (False, t)
                      | [] \<Rightarrow> (False, []));
          ds = dropWhile py_isspace r
      in if ds \<noteq> [] \<and> list_all is_digit ds
         then Some (if neg then - int (radix_val 10 ds) else int (radix_val 10 ds)) else None)"

fun read_name :: "ttoken list \<Rightarrow> (pystr \<times> ttoken list) option" where
  "read_name [] = None"
| "read_name (t # ts) =
     (if t = TChr CHR ''>'' then Some ([], ts)
      else map_option (\<lambda>(n, r). (tok_str t @ n, r)) (read_name ts))"

fun take_octal :: "nat \<Rightarrow> ttoken list \<Rightarrow> pystr \<times> ttoken list" where
  "take_octal 0 ts = ([], ts)"
| "take_octal (Suc k) (TChr d # ts) =
     (if is_octal d then (let (ds, r) = take_octal k ts in (d # ds, r)) else ([], TChr d # ts))"
| "take_octal (Suc k) ts = ([], ts)"

definition escape_char :: "char \<Rightarrow> char option" where
  "escape_char c =
     map_of [(CHR ''a'', CHR 0x07), (CHR ''b'', CHR 0x08), (CHR ''f'', CHR 0x0C), (CHR ''n'', CHR 0x0A),
             (CHR ''r'', CHR 0x0D), (CHR ''t'', CHR 0x09), (CHR ''v'', CHR 0x0B), (bslash, bslash)] c"

definition cons_item :: "titem \<Rightarrow> re_error + titem list \<Rightarrow> re_error + titem list" where
  "cons_item x r = (case r of Inl e \<Rightarrow> Inl e | Inr xs \<Rightarrow> Inr (x # xs))"

definition octal_char :: "pystr \<Rightarrow> char" where
  "octal_char ds = char_of (radix_val 8 ds mod 256)"

fun next_is :: "(char \<Rightarrow> bool) \<Rightarrow> ttoken list \<Rightarrow> bool" where
  "next_is P (TChr d # ts) = P d"
| "next_is P ts = False"

fun tok_chr :: "ttoken \<Rightarrow> char" where
  "tok_chr (TChr d) = d"
| "tok_chr (TEsc d) = d"

lemma read_name_shorter: "read_name ts = Some (n, r) \<Longrightarrow> length r < length ts"
  by (induction ts arbitrary: n) (auto split: if_splits)

lemma take_octal_shorter: "take_octal k ts = (ds, r) \<Longrightarrow> length r \<le> length ts"
  by (induction k ts arbitrary: ds rule: take_octal.induct) (auto split: if_splits prod.splits)

function parse_tmpl :: "ttoken list \<Rightarrow> re_error + titem list" where
  "parse_tmpl [] = Inr []"
| "parse_tmpl (TChr c # ts) = cons_item (TLit [c]) (parse_tmpl ts)"
| "parse_tmpl (TEsc c # ts) =
     (if c = CHR ''g'' then
        (if next_is (\<lambda>d. d = CHR ''<'') ts then
           (case read_name (tl ts) of
              None \<Rightarrow> Inl Unterminated_group_name
            | Some (n, rest) \<Rightarrow>
                if n = [] then Inl Missing_group_name
                else (case py_int n of
                        None \<Rightarrow> Inl Bad_group_name
                      | Some i \<Rightarrow> if i < 0 then Inl Negative_group_number
                                 else cons_item (TGroup (nat i)) (parse_tmpl rest)))
         else Inl Missing_group_name)
      else if c = CHR ''0'' then
        (case take_octal 2 ts of (ds, rest) \<Rightarrow> cons_item (TLit [octal_char ds]) (parse_tmpl rest))
      else if is_digit c then
        (if next_is is_digit ts then
           (if is_octal c \<and> is_octal (tok_chr (hd ts)) \<and> next_is is_octal (tl ts)
            then cons_item (TLit [octal_char [c, tok_chr (hd ts), tok_chr (hd (tl ts))]])
                   (parse_tmpl (tl (tl ts)))
            else cons_item (TGroup (radix_val 10 [c, tok_chr (hd ts)])) (parse_tmpl (tl ts)))
         else cons_item (TGroup (digit_val c)) (parse_tmpl ts))
      else (case escape_char c of
              Some e \<Rightarrow> cons_item (TLit [e]) (parse_tmpl ts)
            | None \<Rightarrow> cons_item (TLit [bslash, c]) (parse_tmpl ts)))"
  by pat_completeness auto
termination
proof (relation "measure length")
qed (auto dest: read_name_shorter take_octal_shorter [OF sym] simp: less_Suc_eq_le)

definition parse_template :: "pystr \<Rightarrow> re_error + titem list" where
  "parse_template s = (case tokenize s of Inl e \<Rightarrow> Inl e | Inr ts \<Rightarrow> parse_tmpl ts)"

fun expand :: "titem list \<Rightarrow> (nat \<Rightarrow> pystr option option) \<Rightarrow> re_error + pystr" where
  "expand [] g = Inr []"
| "expand (TLit l # its) g = (case expand its g of Inl e \<Rightarrow> Inl e | Inr r \<Rightarrow> Inr (l @ r))"
| "expand (TGroup n # its) g =
     (case g n of
        None \<Rightarrow> Inl Invalid_group_reference
      | Some None \<Rightarrow> Inl Unmatched_group
      | Some (Some v) \<Rightarrow> (case expand its g of Inl e \<Rightarrow> Inl e | Inr r \<Rightarrow> Inr (v @ r)))"

subsection \<open>Templates without backslash\<close>

text \<open>
  A template with no backslash parses to its own bytes as literals and expands to itself
  for every match: this is what CPython's fast path (\<open>sre_literal_template\<close>) assumes
  when it uses such a template as it is.
\<close>

lemma tokenize_append_literal:
  "bslash \<notin> set u \<Longrightarrow>
     tokenize (u @ v) = (case tokenize v of Inl e \<Rightarrow> Inl e | Inr ts \<Rightarrow> Inr (map TChr u @ ts))"
  by (induction u) (auto split: sum.split)

lemma tokenize_literal: "bslash \<notin> set u \<Longrightarrow> tokenize u = Inr (map TChr u)"
  using tokenize_append_literal [of u "[]"] by simp

lemma parse_tmpl_chrs:
  "parse_tmpl (map TChr u @ ts) =
     (case parse_tmpl ts of Inl e \<Rightarrow> Inl e | Inr its \<Rightarrow> Inr (map (\<lambda>c. TLit [c]) u @ its))"
  by (induction u) (auto simp: cons_item_def split: sum.split)

lemma expand_lits:
  "expand (map (\<lambda>c. TLit [c]) u @ its) g =
     (case expand its g of Inl e \<Rightarrow> Inl e | Inr r \<Rightarrow> Inr (u @ r))"
  by (induction u) (auto split: sum.split)

theorem literal_template:
  assumes "bslash \<notin> set t"
  shows "parse_template t = Inr (map (\<lambda>c. TLit [c]) t) \<and> expand (map (\<lambda>c. TLit [c]) t) g = Inr t"
  using assms tokenize_literal parse_tmpl_chrs [of t "[]"] expand_lits [of t "[]"]
  by (simp add: parse_template_def)

end
