(* ===== verification/Rewriter.thy ===== *)
theory Rewriter
  imports Regex Template
begin

text \<open>
  The per-file transformation of \<open>src/code_license_replacer.py\<close>: lines 24-26 build
  \<open>licenseText\<close> from the license lines (\<open>license_text\<close>); line 32 builds the header
  for one file (\<open>header_template\<close>, with \<open>os.path.basename\<close>) and applies
  \<open>re.sub(pattern, header, fileText, count=1, flags=re.DOTALL)\<close> (\<open>re_sub1\<close> on
  \<open>leading_block_rx\<close>, giving \<open>rewrite_text\<close>). \<open>re_sub1\<close> is \<open>re.sub\<close> with
  \<open>count=1\<close>: parse the template, search once, and on a match replace the matched span
  by the expanded template; \<open>match_group\<close> is \<open>match.group(g)\<close> over \<open>sre\<close>'s marks.
\<close>

definition license_text :: "pystr list \<Rightarrow> pystr" where
  "license_text licenseTextLines =
     foldl (\<lambda>licenseText l. licenseText @ '' * '' @ py_strip l @ [nl]) [] licenseTextLines"

definition header_template :: "pystr \<Rightarrow> pystr \<Rightarrow> pystr" where
  "header_template name licenseText =
     ''/**'' @ [nl] @ '' * '' @ name @ [nl] @ '' * '' @ [nl] @ licenseText @ '' */''"

definition substr :: "pystr \<Rightarrow> nat \<Rightarrow> nat \<Rightarrow> pystr" where
  "substr s a b = take (b - a) (drop a s)"

definition match_group :: "nat \<Rightarrow> pystr \<Rightarrow> nat \<Rightarrow> nat \<Rightarrow> marks \<Rightarrow> nat \<Rightarrow> pystr option option" where
  "match_group ngroups s st en m g =
     (if g = 0 then Some (Some (substr s st en))
      else if g \<le> ngroups then
        (case (m (2 * g - 2), m (2 * g - 1)) of
           (Some a, Some b) \<Rightarrow> Some (Some (substr s a b))
         | _ \<Rightarrow> Some None)
      else None)"

definition re_sub1 :: "rx list \<Rightarrow> nat \<Rightarrow> pystr \<Rightarrow> pystr \<Rightarrow> re_error + pystr" where
  "re_sub1 p ngroups tmpl s =
     (case parse_template tmpl of
        Inl e \<Rightarrow> Inl e
      | Inr its \<Rightarrow>
          (case rx_search p s of
             None \<Rightarrow> Inr s
           | Some (st, en, m) \<Rightarrow>
               (case expand its (match_group ngroups s st en m) of
                  Inl e \<Rightarrow> Inl e
                | Inr r \<Rightarrow> Inr (take st s @ r @ drop en s))))"

definition rewrite_text :: "pystr \<Rightarrow> path \<Rightarrow> pystr \<Rightarrow> re_error + pystr" where
  "rewrite_text licenseText fileName fileText =
     re_sub1 leading_block_rx 1 (header_template (basename fileName) licenseText) fileText"

subsection \<open>The license block\<close>

lemma foldl_license_text:
  "foldl (\<lambda>acc l. acc @ '' * '' @ py_strip l @ [nl]) acc ls =
     acc @ concat (map (\<lambda>l. '' * '' @ py_strip l @ [nl]) ls)"
  by (induction ls arbitrary: acc) auto

lemma license_text_concat:
  "license_text ls = concat (map (\<lambda>l. '' * '' @ py_strip l @ [nl]) ls)"
  unfolding license_text_def foldl_license_text by simp

lemma bslash_license_text:
  "(\<forall>l \<in> set ls. bslash \<notin> set l) \<Longrightarrow> bslash \<notin> set (license_text ls)"
  using set_py_strip by (auto simp: license_text_concat)

lemma well_formed_license_lines:
  "(\<forall>l \<in> set ls. nl \<notin> set (py_strip l)) \<Longrightarrow>
     well_formed_lines (map (\<lambda>l. '' * '' @ py_strip l @ [nl]) ls)"
proof -
  let ?f = "\<lambda>l. '' * '' @ py_strip l @ [nl]"
  have "last l = nl" if "l \<in> set (butlast (map ?f ls))" for l
    using in_set_butlastD [OF that] by auto
  moreover assume "\<forall>l \<in> set ls. nl \<notin> set (py_strip l)"
  ultimately show ?thesis by (auto simp: well_formed_lines_def butlast_append)
qed

text \<open>C12: the license part of the header has one line per line of the license file, in
  order, each the line stripped of surrounding whitespace between \<open>" * "\<close> and a
  newline; so the header's license-line count is the license file's line count.\<close>
theorem license_lines:
  "readlines (license_text (readlines x)) = map (\<lambda>l. '' * '' @ py_strip l @ [nl]) (readlines x)"
  unfolding license_text_concat
  by (rule readlines_concat) (use well_formed_license_lines nl_py_strip_readlines in blast)

subsection \<open>re.sub with count=1\<close>

lemma re_sub1_literal_match:
  "bslash \<notin> set tmpl \<Longrightarrow> rx_search p s = Some (st, en, m) \<Longrightarrow>
     re_sub1 p n tmpl s = Inr (take st s @ tmpl @ drop en s)"
  using literal_template [of tmpl] by (simp add: re_sub1_def)

lemma re_sub1_no_match:
  "parse_template tmpl = Inr its \<Longrightarrow> rx_search p s = None \<Longrightarrow> re_sub1 p n tmpl s = Inr s"
  by (simp add: re_sub1_def)

lemma re_sub1_parse_error:
  "parse_template tmpl = Inl e \<Longrightarrow> re_sub1 p n tmpl s = Inl e"
  by (simp add: re_sub1_def)

lemma bslash_header_template:
  "bslash \<notin> set name \<Longrightarrow> bslash \<notin> set lic \<Longrightarrow> bslash \<notin> set (header_template name lic)"
  by (simp add: header_template_def)

subsection \<open>One file\<close>

text \<open>
  With no backslash in the file name or the license text, the header is inserted
  literally: a file whose text has a leading comment block gets the header followed by
  what came after the block's closing \<open>*/\<close>; any other file is unchanged.
\<close>

lemmas regex_eval = leading_comment_def block_at_def close_from_def nonword_len_def run_len_def
  is_word_def occurs_at_def

lemmas header_eval = basename_def license_text_def py_strip_def py_isspace_def header_template_def

lemma no_slash_prefix:
  assumes "0 < k" and "k < 7"
  shows "(''/**'' @ [nl] @ '' * '') ! k \<noteq> CHR ''/''"
proof -
  let ?a = "''/**'' @ [nl] @ '' * ''"
  have "?a ! k = tl ?a ! (k - 1)" using assms by (simp add: nth_tl)
  moreover have "tl ?a ! (k - 1) \<in> set (tl ?a)" using assms by (intro nth_mem) simp
  ultimately show ?thesis by auto
qed

lemma header_no_close:
  assumes "CHR ''/'' \<notin> set name" and "\<not> sublist ''*/'' lic"
  shows "\<not> sublist ''*/'' (''/**'' @ [nl] @ '' * '' @ name @ [nl] @ '' * '' @ [nl] @ lic @ '' *'')"
proof -
  let ?x1 = "''/**'' @ [nl] @ '' * ''" and ?x2 = "[nl] @ '' * '' @ [nl]"
  have n: "\<not> sublist ''*/'' name" using assms(1) sublist2_set [of "CHR ''*''" "CHR ''/''" name] by blast
  have x1: "\<not> sublist ''*/'' ?x1" by (simp add: sublist_Cons_right)
  have x2: "\<not> sublist ''*/'' ?x2" by (simp add: sublist_Cons_right)
  have x3: "\<not> sublist ''*/'' '' *''" by (simp add: sublist_Cons_right)
  have "\<not> sublist ''*/'' (?x1 @ name)" by (rule no_sublist2_append [OF x1 n]) simp
  then have "\<not> sublist ''*/'' ((?x1 @ name) @ ?x2)" by (rule no_sublist2_append [OF _ x2]) simp
  then have "\<not> sublist ''*/'' (((?x1 @ name) @ ?x2) @ lic)"
    by (rule no_sublist2_append [OF _ assms(2)]) simp
  then have "\<not> sublist ''*/'' ((((?x1 @ name) @ ?x2) @ lic) @ '' *'')"
    by (rule no_sublist2_append [OF _ x3]) simp
  then show ?thesis by simp
qed

lemma length_header_template: "length (header_template name lic) = 15 + length name + length lic"
  by (simp add: header_template_def)

lemma first_some_only_zero:
  "(\<And>k. 0 < k \<Longrightarrow> k \<le> n \<Longrightarrow> f k = None) \<Longrightarrow> first_some f (rev [0..<Suc n]) = f 0"
proof -
  assume none: "\<And>k. 0 < k \<Longrightarrow> k \<le> n \<Longrightarrow> f k = None"
  have "rev [0..<Suc n] = rev [1..<Suc n] @ [0]" by (simp add: upt_rec)
  moreover have "first_some f (rev [1..<Suc n]) = None"
    unfolding first_some_None_iff by (auto intro: none)
  ultimately show ?thesis by (simp split: option.split)
qed

text \<open>
  On a file that starts with a generated header whose name contains a word byte and no
  slash, the only opener the pattern can use is the header's own, at position 0.
\<close>

lemma header_opener_only:
  assumes slash: "CHR ''/'' \<notin> set name" and word: "\<exists>c \<in> set name. is_word c"
  shows "leading_comment (header_template name lic @ r) =
           map_option (Pair 0) (close_from (header_template name lic @ r) 4)"
proof -
  define a where "a = ''/**'' @ [nl] @ '' * ''"
  define tl_h where "tl_h = [nl] @ '' * '' @ [nl] @ lic @ '' ''"
  have a7: "length a = 7" by (simp add: a_def)
  have s: "header_template name lic @ r = a @ name @ tl_h @ ''*/'' @ r"
    by (simp add: a_def tl_h_def header_template_def)
  let ?s = "a @ name @ tl_h @ ''*/'' @ r"
  have opener: "occurs_at ?s 0 ''/**''" by (simp add: a_def occurs_at_def)
  from word obtain i where i: "i < length name" "is_word (name ! i)"
    by (metis in_set_conv_nth)
  have at_i: "?s ! (7 + i) = name ! i"
    using i(1) nth_append_length_plus [of a "name @ tl_h @ ''*/'' @ r" i] a7 by (simp add: nth_append)
  have len_s: "Suc (7 + i) \<le> length ?s" using i(1) a7 by simp
  have nwl: "nonword_len ?s \<le> 7 + i"
  proof (rule ccontr)
    assume "\<not> nonword_len ?s \<le> 7 + i"
    then have "Suc (7 + i) \<le> nonword_len ?s" by simp
    then have "\<forall>j < Suc (7 + i). \<not> is_word (?s ! j)" using le_nonword_len_iff [OF len_s] by simp
    then have "\<not> is_word (?s ! (7 + i))" by simp
    with at_i i(2) show False by simp
  qed
  have no_later: "\<not> occurs_at ?s k' ''/**''" if "0 < k'" "k' \<le> nonword_len ?s" for k'
  proof
    assume "occurs_at ?s k' ''/**''"
    then have slash_at: "?s ! k' = CHR ''/''" by (simp add: occurs_at_Cons)
    have k': "k' < 7 + length name" using that(2) nwl i(1) by simp
    show False
    proof (cases "k' < 7")
      case True
      then have "?s ! k' = a ! k'" using a7 by (simp add: nth_append)
      with slash_at no_slash_prefix [OF that(1) True] show False by (simp add: a_def)
    next
      case False
      then have lt: "k' - 7 < length name" using k' by simp
      have "?s ! k' = (name @ tl_h @ ''*/'' @ r) ! (k' - 7)"
        using False a7 by (simp add: nth_append)
      with lt have "?s ! k' = name ! (k' - 7)" by (simp add: nth_append)
      moreover have "name ! (k' - 7) \<in> set name" using False k' by (intro nth_mem) simp
      ultimately show False using slash_at slash by simp
    qed
  qed
  have "leading_comment ?s = block_at ?s 0"
    unfolding leading_comment_def
  proof (rule first_some_only_zero)
    fix k assume "0 < k" "k \<le> nonword_len ?s"
    then have "\<not> occurs_at ?s k ''/**''" by (rule no_later)
    then show "block_at ?s k = None" by (simp add: block_at_def)
  qed
  also have "\<dots> = map_option (Pair 0) (close_from ?s 4)"
    using opener by (simp add: block_at_def)
  finally show ?thesis by (simp only: s)
qed

lemma leading_comment_header:
  assumes slash: "CHR ''/'' \<notin> set name" and word: "\<exists>c \<in> set name. is_word c"
    and close: "\<not> sublist ''*/'' lic"
  shows "leading_comment (header_template name lic @ r) = Some (0, length (header_template name lic) - 2)"
proof -
  define a where "a = ''/**'' @ [nl] @ '' * ''"
  define tl_h where "tl_h = [nl] @ '' * '' @ [nl] @ lic @ '' ''"
  have a7: "length a = 7" by (simp add: a_def)
  have s: "header_template name lic @ r = a @ name @ tl_h @ ''*/'' @ r"
    by (simp add: a_def tl_h_def header_template_def)
  have len: "length (header_template name lic) - 2 = length (a @ name @ tl_h)"
    by (simp add: a_def tl_h_def header_template_def)
  let ?s = "a @ name @ tl_h @ ''*/'' @ r"
  have closer: "close_from ?s 4 = Some (length (a @ name @ tl_h))"
    unfolding close_from_Some_iff
  proof (intro conjI allI impI)
    show "4 \<le> length (a @ name @ tl_h)" using a7 by simp
    have "occurs_at ((a @ name @ tl_h) @ ''*/'' @ r) (length (a @ name @ tl_h) + 0) ''*/''"
      unfolding occurs_at_append_left by (simp add: occurs_at_def)
    then show "occurs_at ?s (length (a @ name @ tl_h)) ''*/''" by simp
  next
    fix j' assume j': "4 \<le> j' \<and> j' < length (a @ name @ tl_h)"
    show "\<not> occurs_at ?s j' ''*/''"
    proof
      assume "occurs_at ?s j' ''*/''"
      then have "sublist ''*/'' (take (Suc (length (a @ name @ tl_h))) ((a @ name @ tl_h) @ ''*/'' @ r))"
        using j' by (intro occurs_at_sublist) auto
      moreover have "take (Suc (length (a @ name @ tl_h))) ((a @ name @ tl_h) @ ''*/'' @ r)
          = ''/**'' @ [nl] @ '' * '' @ name @ [nl] @ '' * '' @ [nl] @ lic @ '' *''"
        by (simp only: take_append take_all order_refl diff_Suc_eq_diff_pred) (simp add: a_def tl_h_def)
      ultimately show False using header_no_close [OF slash close] by (simp add: a_def tl_h_def)
    qed
  qed
  have "close_from (header_template name lic @ r) 4 = Some (length (header_template name lic) - 2)"
    unfolding s len by (rule closer)
  then show ?thesis using header_opener_only [OF slash word] by simp
qed

lemma header_early_close:
  assumes "sublist ''*/'' lic"
  shows "\<exists>j. close_from (header_template name lic @ r) 4 = Some j \<and> j + 2 < length (header_template name lic)"
proof -
  from assms obtain u v where lic: "lic = u @ ''*/'' @ v" by (auto simp: sublist_def)
  let ?P = "''/**'' @ [nl] @ '' * '' @ name @ [nl] @ '' * '' @ [nl] @ u"
  let ?s = "header_template name lic @ r"
  have s: "?s = ?P @ ''*/'' @ v @ '' */'' @ r" by (simp add: lic header_template_def)
  have "occurs_at (?P @ ''*/'' @ v @ '' */'' @ r) (length ?P + 0) ''*/''"
    unfolding occurs_at_append_left by (simp add: occurs_at_def)
  then have occ: "occurs_at ?s (length ?P) ''*/''" by (simp only: s add_0_right)
  have "4 \<le> length ?P" by simp
  with occ obtain j where j: "close_from ?s 4 = Some j"
    by (cases "close_from ?s 4") (auto simp: close_from_None_iff)
  have before: "\<forall>j'. 4 \<le> j' \<and> j' < j \<longrightarrow> \<not> occurs_at ?s j' ''*/''"
    using j unfolding close_from_Some_iff by blast
  have "j \<le> length ?P"
  proof (rule ccontr)
    assume "\<not> j \<le> length ?P"
    then have "4 \<le> length ?P \<and> length ?P < j" by simp
    with before occ show False by blast
  qed
  moreover have "length ?P + 2 < length (header_template name lic)"
    by (simp add: lic header_template_def)
  ultimately show ?thesis using j by auto
qed

lemma rewrite_text_block:
  assumes "bslash \<notin> set (basename p)" and "bslash \<notin> set lic"
    and "leading_comment s = Some (k, j)"
  shows "rewrite_text lic p s = Inr (header_template (basename p) lic @ drop (j + 2) s)"
  using assms rx_search_leading [of s]
  by (simp add: rewrite_text_def re_sub1_literal_match bslash_header_template)

lemma rewrite_text_no_block:
  assumes "bslash \<notin> set (basename p)" and "bslash \<notin> set lic"
    and "leading_comment s = None"
  shows "rewrite_text lic p s = Inr s"
  using assms rx_search_leading [of s] literal_template
  by (simp add: rewrite_text_def re_sub1_no_match bslash_header_template)

subsection \<open>Behaviour of the per-file rewrite\<close>

text \<open>C3: when neither the file's base name nor the license text contains a backslash, the
  substitution on line 32 replaces exactly the leading documentation block found by the pattern
  (up to and including its closing \<open>*/\<close>) with the generated header, and leaves a file
  without such a block unchanged.\<close>
theorem rewrite_text_correct:
  assumes "bslash \<notin> set (basename p)" and "bslash \<notin> set lic"
  shows "rewrite_text lic p s = Inr (case leading_comment s of
           None \<Rightarrow> s
         | Some (k, j) \<Rightarrow> header_template (basename p) lic @ drop (j + 2) s)"
  using assms rewrite_text_block rewrite_text_no_block by (auto split: option.split)

theorem rewrite_text_correct_witness:
  "rewrite_text (license_text [''Copyright 2024'' @ [nl], ''All rights reserved.''])
     ''Foo.h'' (''/** old header'' @ [nl] @ ''stuff */'' @ [nl] @ ''int x;'') =
   Inr (''/**'' @ [nl] @ '' * Foo.h'' @ [nl] @ '' * '' @ [nl] @ '' * Copyright 2024'' @ [nl] @
        '' * All rights reserved.'' @ [nl] @ '' */'' @ [nl] @ ''int x;'')"
proof -
  have "leading_comment (''/** old header'' @ [nl] @ ''stuff */'' @ [nl] @ ''int x;'') = Some (0, 21)"
    by (simp add: regex_eval)
  with rewrite_text_correct
    [of "''Foo.h''" "license_text [''Copyright 2024'' @ [nl], ''All rights reserved.'']"]
  show ?thesis by (simp add: header_eval)
qed

text \<open>
  The per-file rewrite is idempotent when the license text contains no backslash and no
  \<open>*/\<close> and the file's base name contains a word character (so that the non-word
  prefix matched by \<open>^\W*\<close> cannot reach past the new header's opener).
\<close>

lemma rewrite_text_idempotent:
  assumes "bslash \<notin> set (basename p)" and "bslash \<notin> set lic"
    and "\<not> sublist ''*/'' lic" and "\<exists>c \<in> set (basename p). is_word c"
    and "rewrite_text lic p s = Inr t"
  shows "rewrite_text lic p t = Inr t"
proof (cases "leading_comment s")
  case None
  with assms show ?thesis using rewrite_text_no_block by fastforce
next
  case (Some kj)
  obtain k j where kj: "kj = (k, j)" by fastforce
  let ?h = "header_template (basename p) lic"
  have t: "t = ?h @ drop (j + 2) s" using assms(1,2,5) rewrite_text_block Some kj by fastforce
  have "leading_comment t = Some (0, length ?h - 2)"
    unfolding t by (rule leading_comment_header [OF slash_basename assms(4,3)])
  then have "rewrite_text lic p t = Inr (?h @ drop (length ?h - 2 + 2) t)"
    by (rule rewrite_text_block [OF assms(1,2)])
  also have "drop (length ?h - 2 + 2) t = drop (j + 2) s"
    unfolding t by (simp add: length_header_template)
  finally show ?thesis using t by simp
qed

subsection \<open>Backslashes in the header\<close>

text \<open>
  The header is passed to \<open>re.sub\<close> as a replacement \<emph>\<open>template\<close>, not as a
  literal, so backslash sequences in the license text or in a file name are interpreted.
\<close>

text \<open>C13: when the header template does not parse (for instance a license line containing
  \<open>\g\<close> not followed by \<open><name>\<close>), the substitution raises \<open>re.error\<close> for every
  file, whether or not the file has a leading block: the template is parsed before the
  search.\<close>
theorem rewrite_text_template_error:
  assumes "parse_template (header_template (basename p) lic) = Inl e"
  shows "rewrite_text lic p s = Inl e"
  using assms by (simp add: rewrite_text_def re_sub1_parse_error)

theorem rewrite_text_template_error_witness:
  "rewrite_text (license_text [''C:'' @ [bslash] @ ''games'']) ''A.h'' ''int x;'' = Inl Missing_group_name"
proof -
  have "parse_template (header_template (basename ''A.h'') (license_text [''C:'' @ [bslash] @ ''games'']))
      = Inl Missing_group_name"
    by (simp add: header_eval parse_template_def cons_item_def)
  then show ?thesis by (rule rewrite_text_template_error)
qed

text \<open>C14: a backslash followed by \<open>1\<close> in the license text (and not followed by
  another digit) is a reference to group 1: for any file with a leading block, the header
  written contains the body of the file's old comment in its place, instead of the two
  characters.\<close>
theorem backslash_one_group:
  assumes name: "bslash \<notin> set (basename p)" and u: "bslash \<notin> set u" and v: "bslash \<notin> set v"
    and nd: "\<not> is_digit (hd (v @ '' */''))"
    and lc: "leading_comment s = Some (k, j)"
  shows "rewrite_text (u @ [bslash, CHR ''1''] @ v) p s =
           Inr (header_template (basename p) (u @ substr s (k + 3) j @ v) @ drop (j + 2) s)"
proof -
  let ?A = "''/**'' @ [nl] @ '' * '' @ basename p @ [nl] @ '' * '' @ [nl] @ u"
  let ?B = "v @ '' */''"
  have h: "header_template (basename p) (u @ [bslash, CHR ''1''] @ v) = ?A @ bslash # CHR ''1'' # ?B"
    by (simp add: header_template_def)
  have bA: "bslash \<notin> set ?A" and bB: "bslash \<notin> set ?B" using name u v by simp_all
  have tok: "tokenize (?A @ bslash # CHR ''1'' # ?B) = Inr (map TChr ?A @ TEsc CHR ''1'' # map TChr ?B)"
    using bA bB by (simp add: tokenize_append_literal tokenize_literal)
  have nx: "\<not> next_is is_digit (map TChr ?B)" using nd by (cases v) simp_all
  have rest: "parse_tmpl (map TChr ?B) = Inr (map (\<lambda>c. TLit [c]) ?B)"
    using parse_tmpl_chrs [of ?B "[]"] by simp
  have parse: "parse_template (?A @ bslash # CHR ''1'' # ?B) =
      Inr (map (\<lambda>c. TLit [c]) ?A @ TGroup 1 # map (\<lambda>c. TLit [c]) ?B)"
    unfolding parse_template_def tok
    using nx rest by (simp add: parse_tmpl_chrs cons_item_def is_digit_def digit_val_def)
  have search: "rx_search leading_block_rx s = Some (0, j + 2, [0 \<mapsto> k + 3, 1 \<mapsto> j])"
    by (simp add: rx_search_leading lc)
  have "expand (map (\<lambda>c. TLit [c]) ?A @ TGroup 1 # map (\<lambda>c. TLit [c]) ?B)
      (match_group 1 s 0 (j + 2) [0 \<mapsto> k + 3, 1 \<mapsto> j]) = Inr (?A @ substr s (k + 3) j @ ?B)"
    using expand_lits [of ?B "[]"] by (simp add: expand_lits match_group_def)
  then show ?thesis
    unfolding rewrite_text_def re_sub1_def h parse search by (simp add: header_template_def)
qed

theorem backslash_one_group_witness:
  "rewrite_text (license_text [''see '' @ [bslash, CHR ''1'']]) ''A.h'' ''/** old */x'' =
     Inr (''/**'' @ [nl] @ '' * A.h'' @ [nl] @ '' * '' @ [nl] @ '' * see  old '' @ [nl] @ '' */x'')"
proof -
  have lic: "license_text [''see '' @ [bslash, CHR ''1'']] = '' * see '' @ [bslash, CHR ''1''] @ [nl]"
    by (simp add: license_text_def py_strip_def py_isspace_def)
  have lc: "leading_comment ''/** old */x'' = Some (0, 8)" by (simp add: regex_eval)
  have "rewrite_text ('' * see '' @ [bslash, CHR ''1''] @ [nl]) ''A.h'' ''/** old */x'' =
      Inr (header_template (basename ''A.h'') ('' * see '' @ substr ''/** old */x'' (0 + 3) 8 @ [nl]) @
           drop (8 + 2) ''/** old */x'')"
    by (rule backslash_one_group [OF _ _ _ _ lc]) (simp_all add: basename_def is_digit_def)
  then show ?thesis by (simp add: lic header_eval substr_def)
qed

text \<open>C16: the condition on \<open>*/\<close> of the idempotence property is needed: when the
  license text contains \<open>*/\<close>, a file that starts with the generated header is not left
  as it is by the rewrite, because the pattern's block ends at the \<open>*/\<close> inside the
  header.\<close>
theorem header_not_fixpoint:
  assumes "bslash \<notin> set (basename p)" and "bslash \<notin> set lic"
    and "\<exists>c \<in> set (basename p). is_word c" and "sublist ''*/'' lic"
  shows "rewrite_text lic p (header_template (basename p) lic @ r) \<noteq>
           Inr (header_template (basename p) lic @ r)"
proof -
  let ?h = "header_template (basename p) lic"
  obtain j where j: "close_from (?h @ r) 4 = Some j" "j + 2 < length ?h"
    using header_early_close [OF assms(4)] by blast
  have "leading_comment (?h @ r) = Some (0, j)"
    using header_opener_only [OF slash_basename assms(3)] j(1) by simp
  then have rw: "rewrite_text lic p (?h @ r) = Inr (?h @ drop (j + 2) (?h @ r))"
    by (rule rewrite_text_block [OF assms(1,2)])
  have len: "length (?h @ drop (j + 2) (?h @ r)) \<noteq> length (?h @ r)" using j(2) by simp
  show ?thesis
  proof
    assume "rewrite_text lic p (?h @ r) = Inr (?h @ r)"
    with rw have "?h @ drop (j + 2) (?h @ r) = ?h @ r" by simp
    with len show False by (metis arg_cong)
  qed
qed

theorem header_not_fixpoint_witness:
  "rewrite_text (license_text [''a */ b'']) ''A.h'' (header_template ''A.h'' (license_text [''a */ b'']) @ ''y'')
     \<noteq> Inr (header_template ''A.h'' (license_text [''a */ b'']) @ ''y'')"
proof -
  have "basename ''A.h'' = ''A.h''" by (simp add: basename_def)
  moreover have "rewrite_text (license_text [''a */ b'']) ''A.h''
      (header_template (basename ''A.h'') (license_text [''a */ b'']) @ ''y'') \<noteq>
      Inr (header_template (basename ''A.h'') (license_text [''a */ b'']) @ ''y'')"
    by (rule header_not_fixpoint)
       (simp_all add: basename_def license_text_def py_strip_def py_isspace_def is_word_def sublist_Cons_right)
  ultimately show ?thesis by simp
qed

end
