(* ===== verification/Driver.thy ===== *)
theory Driver
  imports Discovery Rewriter "HOL-Library.Multiset"
begin

text \<open>
  The script as a whole (\<open>src/code_license_replacer.py\<close>, run top to bottom). The
  candidate list is computed first (lines 6-12, \<open>discover\<close>), then the license is read
  (lines 15-17: \<open>open\<close> raises \<open>IOError\<close> when the file cannot be opened, and nothing
  catches it), the check on lines 19-21 tests the variable against \<open>None\<close>, the license
  block is built (lines 24-26) and every candidate is rewritten in order (lines 29-37,
  \<open>rewrite_all\<close> over \<open>rewrite_file\<close>). An uncaught exception ends the run with the
  file system as it is at that moment (\<open>Raised\<close>, exit status 1); \<open>exit(-1)\<close> prints
  its message and ends it with status 255 (\<open>Exited\<close>); otherwise it finishes with
  status 0. The license file is looked up as \<open>code_license.txt\<close> in the working
  directory (the source's \<open>./code_license.txt\<close>).
\<close>

datatype py_exc = IOError io_error path | ReError re_error

datatype outcome = Finished fs | Raised py_exc fs | Exited int pystr fs

definition rewrite_file :: "pystr \<Rightarrow> fs \<Rightarrow> path \<Rightarrow> py_exc + fs" where
  "rewrite_file licenseText fs fileName =
     (case open_rw fs fileName of
        Inl e \<Rightarrow> Inl (IOError e fileName)
      | Inr f \<Rightarrow>
          (case rewrite_text licenseText fileName (content f) of
             Inl e \<Rightarrow> Inl (ReError e)
           | Inr modifiedFileText \<Rightarrow> Inr (write_file fs fileName f modifiedFileText)))"

fun rewrite_all :: "pystr \<Rightarrow> fs \<Rightarrow> path list \<Rightarrow> outcome" where
  "rewrite_all licenseText fs [] = Finished fs"
| "rewrite_all licenseText fs (fileName # fileNames) =
     (case rewrite_file licenseText fs fileName of
        Inl e \<Rightarrow> Raised e fs
      | Inr fs' \<Rightarrow> rewrite_all licenseText fs' fileNames)"

definition license_path :: path where
  "license_path = ''code_license.txt''"

definition main :: "fs \<Rightarrow> outcome" where
  "main fs =
     (let allFileNames = discover fs in
      case open_read fs license_path of
        Inl e \<Rightarrow> Raised (IOError e license_path) fs
      | Inr licenseFileText \<Rightarrow>
          (let licenseTextLines = Some (readlines licenseFileText) in
           case licenseTextLines of
             None \<Rightarrow> Exited (-1) ''Failed to find and open code_license.txt in script directory.'' fs
           | Some ls \<Rightarrow> rewrite_all (license_text ls) fs allFileNames))"

fun exit_status :: "outcome \<Rightarrow> nat" where
  "exit_status (Finished fs) = 0"
| "exit_status (Raised e fs) = 1"
| "exit_status (Exited n msg fs) = nat (n mod 256)"

fun final_fs :: "outcome \<Rightarrow> fs" where
  "final_fs (Finished fs) = fs"
| "final_fs (Raised e fs) = fs"
| "final_fs (Exited n msg fs) = fs"

definition rewritten :: "pystr \<Rightarrow> path \<Rightarrow> entry \<Rightarrow> entry" where
  "rewritten licenseText fileName e =
     (case e of
        Regular f \<Rightarrow>
          (case rewrite_text licenseText fileName (content f) of
             Inr t \<Rightarrow> Regular (f\<lparr>content := t\<rparr>)
           | Inl err \<Rightarrow> e)
      | Directory \<Rightarrow> e)"

text \<open>
  \<open>batch_effect lic A fs\<close> is the file system in which every path of \<open>A\<close> holds its
  entry rewritten from its original content, in place, and every other path is as before:
  the abstract effect of a completed batch.
\<close>

definition batch_effect :: "pystr \<Rightarrow> path set \<Rightarrow> fs \<Rightarrow> fs" where
  "batch_effect lic A fs = map (\<lambda>(q, e). (q, if q \<in> A then rewritten lic q e else e)) fs"

subsection \<open>The batch loop\<close>

text \<open>
  An uncaught exception stops the loop with the files before it rewritten and the others
  untouched; a completed loop over distinct names is \<open>batch_effect\<close> of their set, so
  the order the glob calls produce does not matter.
\<close>

lemma rewrite_file_Inr:
  "rewrite_file lic fs p = Inr fs' \<longleftrightarrow>
     (\<exists>f t. open_rw fs p = Inr f \<and> rewrite_text lic p (content f) = Inr t \<and> fs' = write_file fs p f t)"
  by (auto simp: rewrite_file_def split: sum.splits)

lemma keys_rewrite_file: "rewrite_file lic fs p = Inr fs' \<Longrightarrow> map fst fs' = map fst fs"
  by (auto simp: rewrite_file_Inr keys_write_file dest: open_rw_key)

lemma keys_rewrite_all: "map fst (final_fs (rewrite_all lic fs ps)) = map fst fs"
proof (induction ps arbitrary: fs)
  case Nil
  then show ?case by simp
next
  case (Cons p ps)
  then show ?case by (auto split: sum.split dest: keys_rewrite_file)
qed

text \<open>C10: the batch never creates, deletes or renames an entry: starting from a
  well-formed file system (distinct paths, no empty or slash-terminated path), the file
  system it leaves, whether the batch completes or aborts, is well formed with the same
  paths in the same order.\<close>
theorem wf_rewrite_all:
  "wf_fs fs \<Longrightarrow> wf_fs (final_fs (rewrite_all lic fs ps)) \<and> map fst (final_fs (rewrite_all lic fs ps)) = map fst fs"
  using keys_rewrite_all [of lic fs ps] by (simp add: wf_fs_def)

lemma rewrite_all_append:
  "rewrite_all lic fs (as @ bs) =
     (case rewrite_all lic fs as of Finished fs' \<Rightarrow> rewrite_all lic fs' bs | r \<Rightarrow> r)"
  by (induction as arbitrary: fs) (auto split: sum.split outcome.split)

lemma rewrite_all_not_Exited: "rewrite_all lic fs ps \<noteq> Exited n msg fs'"
  by (induction ps arbitrary: fs) (auto split: sum.split)

lemma rewrite_all_Raised_iff:
  "rewrite_all lic fs ps = Raised e fs' \<longleftrightarrow>
     (\<exists>as p bs. ps = as @ p # bs \<and> rewrite_all lic fs as = Finished fs' \<and> rewrite_file lic fs' p = Inl e)"
proof
  assume "rewrite_all lic fs ps = Raised e fs'"
  then show "\<exists>as p bs. ps = as @ p # bs \<and> rewrite_all lic fs as = Finished fs' \<and> rewrite_file lic fs' p = Inl e"
  proof (induction ps arbitrary: fs)
    case Nil
    then show ?case by simp
  next
    case (Cons q qs)
    show ?case
    proof (cases "rewrite_file lic fs q")
      case (Inl e')
      with Cons.prems have "q # qs = [] @ q # qs \<and> rewrite_all lic fs [] = Finished fs'
          \<and> rewrite_file lic fs' q = Inl e" by auto
      then show ?thesis by blast
    next
      case (Inr fs1)
      with Cons.prems have "rewrite_all lic fs1 qs = Raised e fs'" by simp
      then obtain as p bs where "qs = as @ p # bs" "rewrite_all lic fs1 as = Finished fs'"
          "rewrite_file lic fs' p = Inl e" using Cons.IH by blast
      with Inr have "q # qs = (q # as) @ p # bs \<and> rewrite_all lic fs (q # as) = Finished fs'
          \<and> rewrite_file lic fs' p = Inl e" by simp
      then show ?thesis by blast
    qed
  qed
next
  assume "\<exists>as p bs. ps = as @ p # bs \<and> rewrite_all lic fs as = Finished fs' \<and> rewrite_file lic fs' p = Inl e"
  then show "rewrite_all lic fs ps = Raised e fs'" by (auto simp: rewrite_all_append)
qed

lemma batch_effect_Cons [simp]:
  "batch_effect lic A ((q, e) # fs) = (q, if q \<in> A then rewritten lic q e else e) # batch_effect lic A fs"
  by (simp add: batch_effect_def)

lemma map_of_batch_effect:
  "map_of (batch_effect lic A fs) q = map_option (\<lambda>e. if q \<in> A then rewritten lic q e else e) (map_of fs q)"
  by (induction fs) (auto simp: batch_effect_def)

lemma batch_effect_empty: "batch_effect lic {} fs = fs"
  by (induction fs) (auto simp: batch_effect_def)

lemma keys_batch_effect: "map fst (batch_effect lic A fs) = map fst fs"
  by (induction fs) (auto simp: batch_effect_def)

lemma batch_effect_insert_absent:
  "p \<notin> set (map fst fs) \<Longrightarrow> batch_effect lic (insert p A) fs = batch_effect lic A fs"
  by (induction fs) (auto simp: batch_effect_def)

lemma update_batch_effect:
  "distinct (map fst fs) \<Longrightarrow> map_of fs p = Some e0 \<Longrightarrow>
     AList.update p (rewritten lic p e0) (batch_effect lic A fs) = batch_effect lic (insert p A) fs"
proof (induction fs)
  case Nil
  then show ?case by simp
next
  case (Cons qe fs)
  obtain q e where qe: "qe = (q, e)" by fastforce
  show ?case
  proof (cases "q = p")
    case True
    with Cons.prems qe have "e = e0" and "p \<notin> set (map fst fs)" by auto
    with True qe show ?thesis by (simp add: batch_effect_insert_absent)
  next
    case False
    with Cons.prems qe Cons.IH show ?thesis by simp
  qed
qed

lemma rewrite_file_batch_effect:
  assumes "distinct (map fst fs)" and "p \<notin> A"
  shows "rewrite_file lic (batch_effect lic A fs) p =
     (case rewrite_file lic fs p of Inl e \<Rightarrow> Inl e | Inr x \<Rightarrow> Inr (batch_effect lic (insert p A) fs))"
proof -
  have same: "open_rw (batch_effect lic A fs) p = open_rw fs p"
    using assms(2) by (simp add: open_rw_def map_of_batch_effect split: option.split)
  show ?thesis
  proof (cases "open_rw fs p")
    case (Inl err)
    with same show ?thesis by (simp add: rewrite_file_def)
  next
    case (Inr f)
    then have "map_of fs p = Some (Regular f)" by (simp add: open_rw_Inr)
    with assms(1) Inr same show ?thesis
      by (auto simp: rewrite_file_def write_file_def rewritten_def update_batch_effect [symmetric]
          split: sum.split)
  qed
qed

lemma rewrite_all_batch_effect:
  "distinct (map fst fs) \<Longrightarrow> distinct ps \<Longrightarrow> set ps \<inter> A = {} \<Longrightarrow>
     rewrite_all lic (batch_effect lic A fs) ps = Finished fs' \<longleftrightarrow>
       (\<forall>q \<in> set ps. \<exists>x. rewrite_file lic fs q = Inr x) \<and> fs' = batch_effect lic (A \<union> set ps) fs"
proof (induction ps arbitrary: A)
  case Nil
  then show ?case by auto
next
  case (Cons p ps)
  then have p: "p \<notin> A" and rest: "set ps \<inter> insert p A = {}" by auto
  show ?case
  proof (cases "rewrite_file lic fs p")
    case (Inl e)
    with Cons.prems p show ?thesis by (simp add: rewrite_file_batch_effect)
  next
    case (Inr x)
    with Cons.prems p have "rewrite_all lic (batch_effect lic A fs) (p # ps) =
        rewrite_all lic (batch_effect lic (insert p A) fs) ps"
      by (simp add: rewrite_file_batch_effect)
    with Cons.IH [OF Cons.prems(1) _ rest] Cons.prems(2) Inr show ?thesis by auto
  qed
qed

lemma rewrite_all_Finished_iff:
  assumes "distinct (map fst fs)" and "distinct ps"
  shows "rewrite_all lic fs ps = Finished fs' \<longleftrightarrow>
     (\<forall>q \<in> set ps. \<exists>x. rewrite_file lic fs q = Inr x) \<and> fs' = batch_effect lic (set ps) fs"
  using rewrite_all_batch_effect [OF assms, of "{}"] by (simp add: batch_effect_empty)

text \<open>C9: the order in which the glob calls list the candidates does not matter: a
  batch over distinct paths that completes gives the same file system for every
  permutation of the paths.\<close>
theorem rewrite_all_order:
  assumes "distinct (map fst fs)" and "distinct ps" and "mset ps' = mset ps"
    and "rewrite_all lic fs ps = Finished fs'"
  shows "rewrite_all lic fs ps' = Finished fs'"
proof -
  have "distinct ps'" and "set ps' = set ps"
    using assms(2,3) mset_eq_imp_distinct_iff mset_eq_setD by blast+
  with assms show ?thesis by (simp add: rewrite_all_Finished_iff)
qed

subsection \<open>The whole run\<close>

text \<open>
  A license file that cannot be read ends the run before any candidate is touched, with
  the uncaught \<open>IOError\<close> (status 1), never through the \<open>exit(-1)\<close> of line 21: the
  test of line 19 cannot succeed because \<open>readlines\<close> returns a list. A completed run
  rewrites every candidate in place; an aborted one leaves the candidates before the failing
  one rewritten and the rest untouched.
\<close>

lemma main_license_error:
  "open_read fs license_path = Inl e \<Longrightarrow> main fs = Raised (IOError e license_path) fs"
  by (simp add: main_def)

lemma main_license_read:
  "open_read fs license_path = Inr ltext \<Longrightarrow>
     main fs = rewrite_all (license_text (readlines ltext)) fs (discover fs)"
  by (simp add: main_def)

text \<open>C8: the branch of lines 19-21 is dead: the run never ends through
  \<open>exit(-1)\<close> with the message "Failed to find and open code_license.txt", whatever the
  file system, because \<open>readlines\<close> returns a list and never \<open>None\<close>.\<close>
theorem main_never_exits_with_message: "main fs \<noteq> Exited n msg fs'"
  by (auto simp: main_def rewrite_all_not_Exited split: sum.split)

text \<open>C7: when \<open>code_license.txt\<close> does not exist the run ends with an uncaught
  \<open>IOError\<close> (ENOENT) before touching any file: the file system is unchanged and the
  exit status is 1.\<close>
theorem main_license_missing:
  assumes "map_of fs license_path = None"
  shows "main fs = Raised (IOError ENOENT license_path) fs \<and> exit_status (main fs) = 1"
  using assms by (simp add: main_license_error open_read_def)

text \<open>C2: when the license file can be read from a well-formed file system, the run
  completes exactly when every candidate can be rewritten, and then every candidate holds
  its rewritten text in place and every other entry is unchanged.\<close>
theorem main_Finished:
  assumes "wf_fs fs" and "open_read fs license_path = Inr ltext"
  shows "main fs = Finished fs' \<longleftrightarrow>
     (\<forall>q \<in> set (discover fs). \<exists>x. rewrite_file (license_text (readlines ltext)) fs q = Inr x) \<and>
     fs' = batch_effect (license_text (readlines ltext)) (set (discover fs)) fs"
proof -
  from assms(1) have "distinct (map fst fs)" and "distinct (discover fs)"
    by (simp_all add: wf_fs_def distinct_discover)
  with assms(2) show ?thesis by (simp add: main_license_read rewrite_all_Finished_iff)
qed

text \<open>C6: an aborted run stops at one candidate: the candidates listed before it are
  rewritten, it and the ones after it are untouched, and the exception is the one its own
  rewrite raised (no rollback, no per-file isolation).\<close>
theorem main_Raised:
  assumes "wf_fs fs" and "open_read fs license_path = Inr ltext"
    and "main fs = Raised e fs'"
  shows "\<exists>as p bs. discover fs = as @ p # bs \<and>
     fs' = batch_effect (license_text (readlines ltext)) (set as) fs \<and>
     rewrite_file (license_text (readlines ltext)) fs' p = Inl e"
proof -
  let ?lic = "license_text (readlines ltext)"
  from assms(2,3) have "rewrite_all ?lic fs (discover fs) = Raised e fs'"
    by (simp add: main_license_read)
  then obtain as p bs where split: "discover fs = as @ p # bs"
    and pre: "rewrite_all ?lic fs as = Finished fs'" and err: "rewrite_file ?lic fs' p = Inl e"
    unfolding rewrite_all_Raised_iff by blast
  from assms(1) have "distinct (map fst fs)" and "distinct (discover fs)"
    by (simp_all add: wf_fs_def distinct_discover)
  with split have "distinct as" by simp
  with pre \<open>distinct (map fst fs)\<close> have "fs' = batch_effect ?lic (set as) fs"
    by (simp add: rewrite_all_Finished_iff)
  with split err show ?thesis by blast
qed


subsection \<open>Running the script twice\<close>

lemma rewritten_Directory_iff: "rewritten lic q e = Directory \<longleftrightarrow> e = Directory"
  by (auto simp: rewritten_def split: entry.split sum.split)

lemma discover_batch_effect: "discover (batch_effect lic A fs) = discover fs"
  by (rule discover_same_layout)
     (auto simp: keys_batch_effect map_of_batch_effect rewritten_Directory_iff)

lemma license_not_candidate: "license_path \<notin> set (discover fs)"
proof
  assume "license_path \<in> set (discover fs)"
  then have "fnmatch_ext ''h'' (basename license_path) \<or> fnmatch_ext ''cpp'' (basename license_path)"
    by (rule discover_ext)
  then show False by (simp add: license_path_def basename_def fnmatch_ext_def suffix_def)
qed

lemma update_present: "map_of al k = Some v \<Longrightarrow> AList.update k v al = al"
  by (induction al) (auto split: if_splits)

text \<open>
  A file the batch rewrote, whose rewrite is a fixed point, is rewritten to itself by a
  second batch, and a second \<open>batch_effect\<close> changes nothing.
\<close>

lemma rewrite_file_again:
  assumes "distinct (map fst fs)" and "q \<in> A" and "rewrite_file lic fs q = Inr x"
    and "\<forall>s t. rewrite_text lic q s = Inr t \<longrightarrow> rewrite_text lic q t = Inr t"
  shows "rewrite_file lic (batch_effect lic A fs) q = Inr (batch_effect lic A fs)"
proof -
  from assms(3) obtain f t where f: "open_rw fs q = Inr f" and t: "rewrite_text lic q (content f) = Inr t"
    by (auto simp: rewrite_file_Inr)
  from f have mf: "map_of fs q = Some (Regular f)" and perm: "readable f \<and> writable f"
    by (simp_all add: open_rw_Inr)
  from assms(4) t have tt: "rewrite_text lic q t = Inr t" by blast
  let ?f = "f\<lparr>content := t\<rparr>"
  have m: "map_of (batch_effect lic A fs) q = Some (Regular ?f)"
    using mf t assms(2) by (simp add: map_of_batch_effect rewritten_def)
  then have "open_rw (batch_effect lic A fs) q = Inr ?f" using perm by (simp add: open_rw_def)
  moreover have "write_file (batch_effect lic A fs) q ?f t = batch_effect lic A fs"
    using m by (simp add: write_file_def update_present)
  ultimately show ?thesis using tt by (simp add: rewrite_file_def)
qed

lemma batch_effect_again:
  assumes "\<forall>q \<in> A. \<forall>s t. rewrite_text lic q s = Inr t \<longrightarrow> rewrite_text lic q t = Inr t"
  shows "batch_effect lic A (batch_effect lic A fs) = batch_effect lic A fs"
proof (induction fs)
  case Nil
  then show ?case by (simp add: batch_effect_def)
next
  case (Cons qe fs)
  obtain q e where qe: "qe = (q, e)" by fastforce
  have "q \<in> A \<Longrightarrow> rewritten lic q (rewritten lic q e) = rewritten lic q e"
    using assms by (auto simp: rewritten_def split: entry.split sum.split)
  with Cons.IH qe show ?case by simp
qed

lemma rewrite_text_stable:
  assumes "bslash \<notin> set (basename q)" and "bslash \<notin> set lic" and "\<not> sublist ''*/'' lic"
    and "\<exists>c \<in> set (basename q). is_word c"
  shows "\<forall>s t. rewrite_text lic q s = Inr t \<longrightarrow> rewrite_text lic q t = Inr t"
  using rewrite_text_idempotent [OF assms] by blast


text \<open>C15: a directory whose name ends in \<open>.h\<close> or \<open>.cpp\<close> is a candidate like a file
  (glob does not look at the entry's type), and opening it with mode \<open>r+\<close> raises
  \<open>IOError\<close> (EISDIR): when the license can be read and some candidate is a directory, the
  run never completes but aborts with an uncaught exception.\<close>
theorem directory_candidate_aborts:
  assumes wf: "wf_fs fs" and rd: "open_read fs license_path = Inr ltext"
    and q: "q \<in> set (discover fs)" and dir: "map_of fs q = Some Directory"
  shows "\<exists>e fs'. main fs = Raised e fs'"
proof (cases "main fs")
  case (Finished fs')
  have dk: "distinct (map fst fs)" using wf by (simp add: wf_fs_def)
  have dd: "distinct (discover fs)" using wf by (rule distinct_discover)
  from Finished rd have "rewrite_all (license_text (readlines ltext)) fs (discover fs) = Finished fs'"
    by (simp add: main_license_read)
  then have "\<exists>x. rewrite_file (license_text (readlines ltext)) fs q = Inr x"
    using q by (simp add: rewrite_all_Finished_iff [OF dk dd])
  moreover have "open_rw fs q = Inl EISDIR" using dir by (simp add: open_rw_def)
  ultimately show ?thesis by (simp add: rewrite_file_def)
next
  case (Exited n msg fs')
  with rd show ?thesis by (simp add: main_license_read rewrite_all_not_Exited)
qed simp

text \<open>C4: running the script a second time changes nothing: after a completed run, a
  second run over the resulting file system also completes and leaves it as it is,
  provided the license text has no backslash and no \<open>*/\<close> and every candidate's
  base name has no backslash and contains a word character.\<close>
theorem main_idempotent:
  assumes wf: "wf_fs fs" and rd: "open_read fs license_path = Inr ltext"
    and lic: "bslash \<notin> set (license_text (readlines ltext))"
      "\<not> sublist ''*/'' (license_text (readlines ltext))"
    and names: "\<forall>q \<in> set (discover fs). bslash \<notin> set (basename q) \<and> (\<exists>c \<in> set (basename q). is_word c)"
    and run: "main fs = Finished fs'"
  shows "main fs' = Finished fs'"
proof -
  let ?lic = "license_text (readlines ltext)" and ?D = "discover fs"
  have dk: "distinct (map fst fs)" using wf by (simp add: wf_fs_def)
  have dd: "distinct ?D" using wf by (rule distinct_discover)
  from run rd have "rewrite_all ?lic fs ?D = Finished fs'" by (simp add: main_license_read)
  then have ok: "\<forall>q \<in> set ?D. \<exists>x. rewrite_file ?lic fs q = Inr x"
    and fs': "fs' = batch_effect ?lic (set ?D) fs"
    by (simp_all add: rewrite_all_Finished_iff [OF dk dd])
  have stable: "\<forall>q \<in> set ?D. \<forall>s t. rewrite_text ?lic q s = Inr t \<longrightarrow> rewrite_text ?lic q t = Inr t"
    using names lic rewrite_text_stable by blast
  have "map_of fs' license_path = map_of fs license_path"
    using license_not_candidate [of fs] by (simp add: fs' map_of_batch_effect option.map_ident)
  then have rd': "open_read fs' license_path = Inr ltext" using rd by (simp add: open_read_def)
  have dk': "distinct (map fst fs')" using dk by (simp add: fs' keys_batch_effect)
  have disc: "discover fs' = ?D" by (simp add: fs' discover_batch_effect)
  have again: "\<forall>q \<in> set ?D. \<exists>x. rewrite_file ?lic fs' q = Inr x"
    using ok stable rewrite_file_again [OF dk] unfolding fs' by blast
  have same: "batch_effect ?lic (set ?D) fs' = fs'"
    unfolding fs' using batch_effect_again stable by blast
  have "rewrite_all ?lic fs' ?D = Finished fs'"
    using again same by (simp add: rewrite_all_Finished_iff [OF dk' dd])
  then show ?thesis using rd' disc by (simp add: main_license_read)
qed

end
