(* ===== verification/Spec2Isabelle.thy ===== *)
theory Spec2Isabelle
  imports Driver
begin

text \<open>
  \<^bold>\<open>A verification model of \<open>src/code_license_replacer.py\<close>.\<close>
  The repository's program is one Python 2 script of 38 lines. It collects candidate
  source files with fourteen \<open>glob.glob\<close> calls (lines 6-12), reads
  \<open>code_license.txt\<close> (lines 15-17), has a dead check for a missing license (lines
  19-21), builds the license block (lines 24-26) and, for every candidate in turn, replaces
  the file's leading \<open>/** ... */\<close> block with a header by one \<open>re.sub\<close> (lines 29-37).

  \<^bold>\<open>Theories and what they model.\<close>
  \<^item> \<open>Prelude\<close>: Python 2 strings as \<open>string\<close> (\<open>str\<close> is a byte string and HOL's
    \<open>char\<close> has 256 values); \<open>first_some\<close>, the shape of every backtracking loop;
    \<open>occurs_at\<close> (substring at a position); shared list and sublist lemmas.
  \<^item> \<open>PyStr\<close>: the built-ins the script calls on strings: \<open>str.strip()\<close>
    (\<open>py_strip\<close>, with \<open>py_isspace\<close> = C \<open>isspace\<close>), \<open>file.readlines()\<close>
    (\<open>readlines\<close>, the split after every newline) and \<open>os.path.basename\<close>.
  \<^item> \<open>FileSystem\<close>: the file system as an association list from paths to entries
    (\<open>Regular\<close> files with read/write permission and content, or \<open>Directory\<close>);
    \<open>open_read\<close> = \<open>open(p)\<close>, \<open>open_rw\<close> = \<open>open(p, 'r+')\<close> with their
    \<open>IOError\<close>s (ENOENT, EISDIR, EACCES); \<open>write_file\<close> = \<open>seek(0); write(t);
    truncate()\<close>, which leaves exactly \<open>t\<close> in the file; \<open>listdir\<close> = \<open>os.listdir\<close>.
  \<^item> \<open>Discovery\<close>: lines 6-12. \<open>glob_ext\<close> is \<open>glob.glob(d + "*.ext")\<close> (listing,
    hidden names dropped, \<open>fnmatch\<close>, directory joined back); \<open>discover\<close> concatenates
    the fourteen calls over \<open>project_dirs\<close> in the source's order.
  \<^item> \<open>Regex\<close>: the part of Python 2's \<open>sre\<close> engine the pattern
    \<open>^\W*/\*\*(.+?)\*/\<close> (DOTALL) uses: a datatype \<open>rx\<close> of its opcodes, the
    backtracking matcher \<open>mt\<close> and the search \<open>rx_search\<close>, and the compiled pattern
    \<open>leading_block_rx\<close>. \<open>leading_comment\<close> is a reference definition over
    positions; the engine computes it (\<open>rx_search_leading\<close>), and it is characterised
    declaratively (\<open>leading_comment_iff\<close>).
  \<^item> \<open>Template\<close>: \<open>sre_parse.parse_template\<close> and \<open>expand_template\<close>, since
    \<open>re.sub\<close> treats its replacement string as a template: escapes, octal escapes,
    \<open>\g<name>\<close> and numeric group references, with their \<open>re.error\<close>s.
  \<^item> \<open>Rewriter\<close>: lines 24-26 (\<open>license_text\<close>) and line 32: \<open>header_template\<close>,
    \<open>re_sub1\<close> (\<open>re.sub\<close> with \<open>count=1\<close>) and \<open>rewrite_text\<close>.
  \<^item> \<open>Driver\<close>: lines 15-37 as a whole: \<open>rewrite_file\<close> (one iteration of the loop),
    \<open>rewrite_all\<close> (the loop, stopping at the first uncaught exception), and \<open>main\<close>,
    whose \<open>outcome\<close> is \<open>Finished\<close>, \<open>Raised\<close> (an uncaught exception: status 1) or
    \<open>Exited\<close> (\<open>exit(-1)\<close>: status 255), each with the file system at that moment.

  \<^bold>\<open>What is proved.\<close> The engine's search with the line-32 pattern is characterised
  declaratively (C1, in \<open>Regex\<close>); the whole run completes exactly when every candidate
  can be rewritten and then rewrites each in place (C2), and an aborted run stops at one
  candidate with the earlier ones rewritten and the later ones untouched (C6); the per-file
  rewrite replaces the leading block by the header, or leaves the file unchanged (C3); a
  second run of the whole script changes nothing, under conditions on the license text and
  the file names (C4), of which the one on \<open>*/\<close> is necessary (C16); a missing license
  ends the run with status 1 and no change (C7), and the \<open>exit(-1)\<close> branch is dead
  (C8); the batch result does not depend on the order of the candidates (C9) and keeps the
  file system's paths (C10); the candidates are characterised (C11); the header has one
  line per license line (C12). Findings: the template is parsed even for files without a
  block, so a bad escape makes every file fail (C13); \<open>\1\<close> in the license text is
  replaced by the old comment's body (C14); a directory named like a source file makes the
  run abort (C15); \<open>/**/\<close> followed by code is not a block, and the match runs on to
  the next \<open>*/\<close> (C5). The witnesses below apply the driver properties to concrete
  file systems: \<open>example_fs\<close> is the spec's example, \<open>dir_fs\<close> has a directory
  \<open>Dir.h\<close> among the candidates.

  \<^bold>\<open>Bounds and fuel.\<close> None are needed: every loop of the script runs over a finite
  list, and the matcher's recursion is structural in the pattern (\<open>fun\<close> with a
  congruence rule for \<open>first_some\<close>); the template parser terminates by the length of
  its token list.

  \<^bold>\<open>Not modelled.\<close> The text printed by the dead \<open>print\<close> of line 20 and Python's
  traceback output (the outcome records the exception instead); \<open>sre\<close>'s recursion
  limit and MAXREPEAT (the pattern's repeats are unbounded and the texts finite);
  normalisation of \<open>./code_license.txt\<close> to \<open>code_license.txt\<close>; concurrent changes
  to the file system during the run; the semantics of \<open>exit\<close> beyond its status.
\<close>

definition rw_file :: "pystr \<Rightarrow> entry" where
  "rw_file t = Regular \<lparr>readable = True, writable = True, content = t\<rparr>"

definition example_license :: pystr where
  "example_license = ''Copyright 2024'' @ [nl] @ ''All rights reserved.''"

definition example_fs :: fs where
  "example_fs =
     [(''code_license.txt'', rw_file example_license),
      (''Foo.h'', rw_file (''/** old header'' @ [nl] @ ''stuff */'' @ [nl] @ ''int x;'')),
      (''GameModel'', Directory),
      (''GameModel/Bar.cpp'', rw_file (''// not a block comment'' @ [nl] @ ''int x;''))]"

definition example_result :: fs where
  "example_result =
     [(''code_license.txt'', rw_file example_license),
      (''Foo.h'', rw_file (''/**'' @ [nl] @ '' * Foo.h'' @ [nl] @ '' * '' @ [nl] @
         '' * Copyright 2024'' @ [nl] @ '' * All rights reserved.'' @ [nl] @ '' */'' @ [nl] @ ''int x;'')),
      (''GameModel'', Directory),
      (''GameModel/Bar.cpp'', rw_file (''// not a block comment'' @ [nl] @ ''int x;''))]"

definition dir_fs :: fs where
  "dir_fs =
     [(''code_license.txt'', rw_file ''MIT''),
      (''A.h'', rw_file ''/** old */x''),
      (''Dir.h'', Directory),
      (''B.h'', rw_file ''/** b */y'')]"

definition dir_result :: fs where
  "dir_result =
     [(''code_license.txt'', rw_file ''MIT''),
      (''A.h'', rw_file (''/**'' @ [nl] @ '' * A.h'' @ [nl] @ '' * '' @ [nl] @ '' * MIT'' @ [nl] @ '' */x'')),
      (''Dir.h'', Directory),
      (''B.h'', rw_file ''/** b */y'')]"

lemmas fs_eval = rw_file_def open_read_def open_rw_def license_path_def discover_def
  project_dirs_def glob_ext_def listdir_def in_dir_def fnmatch_ext_def suffix_def basename_def
  readlines_def rewrite_file_def write_file_def wf_fs_def

lemmas text_eval = rewrite_text_block rewrite_text_no_block regex_eval header_template_def
  license_text_def py_strip_def py_isspace_def

section \<open>Witnesses of the driver properties\<close>

theorem main_Finished_witness: "main example_fs = Finished example_result"
proof -
  have wf: "wf_fs example_fs" by (simp add: example_fs_def fs_eval)
  have rd: "open_read example_fs license_path = Inr example_license"
    by (simp add: example_fs_def fs_eval)
  show ?thesis
    using main_Finished [OF wf rd, of example_result]
    by (simp add: example_fs_def example_result_def example_license_def fs_eval text_eval
        batch_effect_def rewritten_def)
qed

theorem main_Raised_witness:
  "\<exists>as p bs. discover dir_fs = as @ p # bs \<and>
     dir_result = batch_effect (license_text (readlines ''MIT'')) (set as) dir_fs \<and>
     rewrite_file (license_text (readlines ''MIT'')) dir_result p = Inl (IOError EISDIR ''Dir.h'')"
proof -
  have wf: "wf_fs dir_fs" by (simp add: dir_fs_def fs_eval)
  have rd: "open_read dir_fs license_path = Inr ''MIT''" by (simp add: dir_fs_def fs_eval)
  have "main dir_fs = Raised (IOError EISDIR ''Dir.h'') dir_result"
    by (simp add: main_def dir_fs_def dir_result_def fs_eval text_eval)
  then show ?thesis by (rule main_Raised [OF wf rd])
qed

theorem directory_candidate_aborts_witness: "\<exists>e fs'. main dir_fs = Raised e fs'"
proof -
  have wf: "wf_fs dir_fs" by (simp add: dir_fs_def fs_eval)
  have rd: "open_read dir_fs license_path = Inr ''MIT''" by (simp add: dir_fs_def fs_eval)
  have q: "''Dir.h'' \<in> set (discover dir_fs)" by (simp add: dir_fs_def fs_eval)
  have dir: "map_of dir_fs ''Dir.h'' = Some Directory" by (simp add: dir_fs_def)
  show ?thesis by (rule directory_candidate_aborts [OF wf rd q dir])
qed

theorem main_license_missing_witness:
  "main [(''Foo.h'', rw_file ''x'')] = Raised (IOError ENOENT license_path) [(''Foo.h'', rw_file ''x'')] \<and>
   exit_status (main [(''Foo.h'', rw_file ''x'')]) = 1"
  by (rule main_license_missing) (simp add: license_path_def)

theorem rewrite_all_order_witness:
  "rewrite_all (license_text (readlines example_license)) example_fs [''GameModel/Bar.cpp'', ''Foo.h'']
     = Finished example_result"
proof -
  have "rewrite_all (license_text (readlines example_license)) example_fs [''Foo.h'', ''GameModel/Bar.cpp'']
      = Finished example_result"
    by (simp add: example_fs_def example_result_def example_license_def fs_eval text_eval)
  then show ?thesis
    by (rule rewrite_all_order [rotated 3]) (simp_all add: example_fs_def)
qed

theorem wf_rewrite_all_witness:
  "wf_fs (final_fs (rewrite_all ''MIT'' example_fs (discover example_fs))) \<and>
   map fst (final_fs (rewrite_all ''MIT'' example_fs (discover example_fs))) = map fst example_fs"
  by (rule wf_rewrite_all) (simp add: example_fs_def fs_eval)

theorem main_idempotent_witness: "main example_result = Finished example_result"
proof -
  have wf: "wf_fs example_fs" by (simp add: example_fs_def fs_eval)
  have rd: "open_read example_fs license_path = Inr example_license"
    by (simp add: example_fs_def fs_eval)
  have lic: "bslash \<notin> set (license_text (readlines example_license))"
    "\<not> sublist ''*/'' (license_text (readlines example_license))"
    by (simp_all add: example_license_def readlines_def text_eval sublist_Cons_right)
  have names: "\<forall>q \<in> set (discover example_fs).
      bslash \<notin> set (basename q) \<and> (\<exists>c \<in> set (basename q). is_word c)"
    by (simp add: example_fs_def fs_eval is_word_def)
  have run: "main example_fs = Finished example_result"
    by (simp add: main_def example_fs_def example_result_def example_license_def fs_eval text_eval)
  show ?thesis by (rule main_idempotent [OF wf rd lic names run])
qed

end
